theory Spec2Isabelle
  imports Complex_Main
begin

section \<open>Scene_Base: widgets, the scene record and the constructor\<close>

text \<open>
  JavaScript numbers that count things (frame timers, cooldown counters, indices, owner
  tags) are modelled as \<open>int\<close> or \<open>nat\<close>; numbers that are divided (opacities, pixel
  coordinates) are modelled as exact rationals \<open>rat\<close>. Objects that the scene shares by
  reference (windows, children, the overlay) live in a heap indexed by object identity.
  Errors thrown by the source are values of \<open>js_error\<close>.
\<close>

datatype js_error = TypeError | InvalidCardColor int

record widget =
  w_active :: bool
  w_lastActiveState :: bool
  w_alwaysActive :: bool
  w_isWindow :: bool
  w_hasUpdate :: bool
  w_z :: int
  w_oriZ :: int
  w_visible :: bool
  w_disposed :: bool
  w_frames :: nat

record scene_base =
  active :: bool
  windows :: "nat list"
  children :: "nat list"
  heap :: "nat \<Rightarrow> widget"
  overlay :: "nat option"
  fadingFlag :: int
  fadeSign :: int
  fadingTimer :: int
  fadeOpacity :: rat
  fadeVisible :: bool
  buttonCooldown :: "nat \<Rightarrow> int option"
  dimRendered :: bool
  errorLog :: "string list"

text \<open>
  The constructor (lines 17-25). \<open>_fadeSign\<close> is not assigned there; its only read is
  \<open>this._fadeSign > 0\<close>, false for \<open>undefined\<close> as for \<open>0\<close>. \<open>new Array(0xff)\<close> has no
  element set: every key reads \<open>undefined\<close>, here \<open>None\<close>. The fading sprite is the
  renderer's global one, so its opacity and visibility are parameters.
\<close>

definition Scene_Base_new :: "(nat \<Rightarrow> widget) \<Rightarrow> rat \<Rightarrow> bool \<Rightarrow> scene_base" where
  "Scene_Base_new h opa vis =
     \<lparr> active = False, windows = [], children = [], heap = h, overlay = None,
       fadingFlag = 0, fadeSign = 0, fadingTimer = 0, fadeOpacity = opa, fadeVisible = vis,
       buttonCooldown = (\<lambda>k. None), dimRendered = False, errorLog = [] \<rparr>"

section \<open>Transition controller (fade)\<close>

text \<open>
  Modelled from the spec: the fading sprite of the renderer, which is not in this file.
  \<open>show\<close> makes it visible, \<open>setOpacity\<close> writes its opacity and \<open>opacity\<close> reads it
  back; \<open>fadeVisible\<close> and \<open>fadeOpacity\<close> are those two attributes.
\<close>

text \<open>The expression \<open>duration || 30\<close>: a missing or zero duration reads 30.\<close>

definition durationOr30 :: "int option \<Rightarrow> int" where
  "durationOr30 duration = (case duration of None \<Rightarrow> 30 | Some d \<Rightarrow> if d = 0 then 30 else d)"

definition startFadeIn :: "int option \<Rightarrow> 'a scene_base_scheme \<Rightarrow> 'a scene_base_scheme" where
  "startFadeIn duration s =
     s\<lparr> fadeVisible := True, fadeSign := 1, fadingTimer := durationOr30 duration,
        fadeOpacity := 1 \<rparr>"

definition startFadeOut :: "int option \<Rightarrow> 'a scene_base_scheme \<Rightarrow> 'a scene_base_scheme" where
  "startFadeOut duration s =
     s\<lparr> fadeVisible := True, fadeSign := - 1, fadingTimer := durationOr30 duration,
        fadeOpacity := 0 \<rparr>"

definition onFadeComplete :: "'a scene_base_scheme \<Rightarrow> 'a scene_base_scheme" where
  "onFadeComplete s = s\<lparr> fadingFlag := 0, fadingTimer := 0 \<rparr>"

definition updateFading :: "'a scene_base_scheme \<Rightarrow> 'a scene_base_scheme" where
  "updateFading s =
     (if fadingTimer s \<le> 0 then s
      else
        let d = fadingTimer s;
            opa = fadeOpacity s;
            s1 = (if fadeSign s > 0
                  then s\<lparr> fadeOpacity := opa - opa / of_int d \<rparr>
                  else s\<lparr> fadeOpacity := opa + (1 - opa) / of_int d \<rparr>);
            s2 = s1\<lparr> fadingTimer := fadingTimer s1 - 1 \<rparr>
        in if fadingTimer s2 \<le> 0 then onFadeComplete s2 else s2)"

text \<open>
  \<open>updateChildren\<close> (lines 35-43) forwards the tick to each child that has an update
  method, unless an overlay is up and the child is a window other than the overlay.
  What a child does with its tick is its own business; the model counts the ticks it got.
\<close>

definition updateChild :: "nat \<Rightarrow> 'a scene_base_scheme \<Rightarrow> 'a scene_base_scheme" where
  "updateChild c s =
     (if w_hasUpdate (heap s c)
         \<and> (overlay s = None \<or> \<not> w_isWindow (heap s c) \<or> overlay s = Some c)
      then s\<lparr> heap := (heap s)(c := (heap s c)\<lparr> w_frames := Suc (w_frames (heap s c)) \<rparr>) \<rparr>
      else s)"

definition updateChildren :: "'a scene_base_scheme \<Rightarrow> 'a scene_base_scheme" where
  "updateChildren s = fold updateChild (children s) s"

definition update :: "'a scene_base_scheme \<Rightarrow> 'a scene_base_scheme" where
  "update s = updateChildren (updateFading s)"

definition isBusy :: "'a scene_base_scheme \<Rightarrow> bool" where
  "isBusy s \<longleftrightarrow> fadingTimer s > 0"


section \<open>Scene lifecycle and owned windows\<close>

definition isActive :: "'a scene_base_scheme \<Rightarrow> bool" where
  "isActive s \<longleftrightarrow> active s"

text \<open>
  \<open>start\<close> and \<open>stop\<close> (lines 115-125). Rendering the renderer's global sprites and
  windows touches only the renderer's registries, which are not part of the scene.
\<close>

definition start :: "'a scene_base_scheme \<Rightarrow> 'a scene_base_scheme" where
  "start s = s\<lparr> active := True \<rparr>"

definition stop :: "'a scene_base_scheme \<Rightarrow> 'a scene_base_scheme" where
  "stop s = s\<lparr> active := False \<rparr>"

text \<open>
  Modelled from the spec: the methods of the widget classes (\<open>Window_Base\<close>, \<open>Sprite\<close>),
  which are not in this file. \<open>activate\<close>/\<open>deactivate\<close>/\<open>isActive\<close> write and read the
  widget's active flag, \<open>show\<close>/\<open>hide\<close> its visibility, \<open>setZ\<close> its z-order,
  \<open>clear(true)\<close> disposes the widget and \<open>isDisposed\<close> reads that back.
\<close>

definition activate :: "widget \<Rightarrow> widget" where
  "activate w = w\<lparr> w_active := True \<rparr>"

definition deactivate :: "widget \<Rightarrow> widget" where
  "deactivate w = w\<lparr> w_active := False \<rparr>"

definition showWidget :: "widget \<Rightarrow> widget" where
  "showWidget w = w\<lparr> w_visible := True \<rparr>"

definition hideWidget :: "widget \<Rightarrow> widget" where
  "hideWidget w = w\<lparr> w_visible := False \<rparr>"

definition setZ :: "int \<Rightarrow> widget \<Rightarrow> widget" where
  "setZ z w = w\<lparr> w_z := z \<rparr>"

definition clearDispose :: "widget \<Rightarrow> widget" where
  "clearDispose w = w\<lparr> w_disposed := True \<rparr>"

definition isDisposed :: "widget \<Rightarrow> bool" where
  "isDisposed w \<longleftrightarrow> w_disposed w"

text \<open>Modelled from the spec: \<open>Stage.addChild\<close> appends the object to the child list.\<close>

definition addChild :: "nat \<Rightarrow> 'a scene_base_scheme \<Rightarrow> 'a scene_base_scheme" where
  "addChild c s = s\<lparr> children := children s @ [c] \<rparr>"

definition onHeap :: "nat \<Rightarrow> (widget \<Rightarrow> widget) \<Rightarrow> (nat \<Rightarrow> widget) \<Rightarrow> (nat \<Rightarrow> widget)" where
  "onHeap a f h = h(a := f (h a))"

definition consoleError :: "string \<Rightarrow> 'a scene_base_scheme \<Rightarrow> 'a scene_base_scheme" where
  "consoleError msg s = s\<lparr> errorLog := errorLog s @ [msg] \<rparr>"

text \<open>
  \<open>disposeWindowAt\<close> (lines 93-101). An index at or past the end reads \<open>undefined\<close>
  from the array, and calling \<open>clear\<close> on it throws before anything is changed.
\<close>

definition disposeWindowAt :: "int \<Rightarrow> 'a scene_base_scheme \<Rightarrow> js_error + 'a scene_base_scheme" where
  "disposeWindowAt index s =
     (if index \<le> - 1
      then Inr (consoleError ''Trying to dispose the window not rendered yet'' s)
      else if nat index < length (windows s)
      then Inr (s\<lparr> heap := onHeap (windows s ! nat index) clearDispose (heap s),
                   windows := take (nat index) (windows s) @ drop (Suc (nat index)) (windows s) \<rparr>)
      else Inl TypeError)"

text \<open>
  \<open>disposeAllWindows\<close> (lines 78-83): the \<open>for\<close> loop re-reads \<open>this._windows.length\<close>
  on every round while \<open>disposeWindowAt\<close> splices the list, then the list is reset.
\<close>

function disposeAllWindows_loop :: "nat \<Rightarrow> 'a scene_base_scheme \<Rightarrow> js_error + 'a scene_base_scheme" where
  "disposeAllWindows_loop i s =
     (if i < length (windows s)
      then (case disposeWindowAt (int i) s of
              Inl e \<Rightarrow> Inl e
            | Inr s' \<Rightarrow> disposeAllWindows_loop (Suc i) s')
      else Inr s)"
  by pat_completeness auto
termination
  by (relation "measure (\<lambda>(i, s). length (windows s) - i)")
     (auto simp: disposeWindowAt_def consoleError_def split: if_splits)

definition disposeAllWindows :: "'a scene_base_scheme \<Rightarrow> js_error + 'a scene_base_scheme" where
  "disposeAllWindows s =
     (case disposeAllWindows_loop 0 s of
        Inl e \<Rightarrow> Inl e
      | Inr s' \<Rightarrow> Inr (s'\<lparr> windows := [] \<rparr>))"

definition terminate :: "'a scene_base_scheme \<Rightarrow> js_error + 'a scene_base_scheme" where
  "terminate s = disposeAllWindows s"

text \<open>\<open>indexOf\<close> gives the first position of the window, or \<open>-1\<close>.\<close>

fun indexOf :: "nat list \<Rightarrow> nat \<Rightarrow> int" where
  "indexOf [] w = - 1"
| "indexOf (x # xs) w = (if x = w then 0 else (let r = indexOf xs w in if r < 0 then - 1 else r + 1))"

definition removeWindow :: "nat \<Rightarrow> 'a scene_base_scheme \<Rightarrow> js_error + 'a scene_base_scheme" where
  "removeWindow win s = disposeWindowAt (indexOf (windows s) win) s"

definition deactivateChildren :: "'a scene_base_scheme \<Rightarrow> 'a scene_base_scheme" where
  "deactivateChildren s = s\<lparr> heap := fold (\<lambda>sp h. onHeap sp deactivate h) (children s) (heap s) \<rparr>"

definition preTerminate :: "'a scene_base_scheme \<Rightarrow> 'a scene_base_scheme" where
  "preTerminate s = deactivateChildren (startFadeOut None s)"

text \<open>\<open>addWindow\<close> (lines 206-217), with \<open>forced\<close> defaulting to false at the call.\<close>

definition addWindow :: "nat \<Rightarrow> bool \<Rightarrow> 'a scene_base_scheme \<Rightarrow> 'a scene_base_scheme" where
  "addWindow win forced s =
     (if \<not> isActive s \<and> \<not> forced
      then consoleError ''Trying to add window to stopped scene'' s
      else if isDisposed (heap s win)
      then consoleError ''Try to add disposed window'' s
      else addChild win (s\<lparr> windows := windows s @ [win] \<rparr>))"

section \<open>Pause, resume and the overlay\<close>

definition pauseChild :: "nat \<Rightarrow> (nat \<Rightarrow> widget) \<Rightarrow> (nat \<Rightarrow> widget)" where
  "pauseChild sp h =
     (let h1 = (if w_active (h sp) then onHeap sp (\<lambda>w. w\<lparr> w_lastActiveState := w_active w \<rparr>) h else h)
      in onHeap sp deactivate h1)"

definition pause :: "'a scene_base_scheme \<Rightarrow> 'a scene_base_scheme" where
  "pause s = s\<lparr> heap := fold pauseChild (children s) (heap s) \<rparr>"

definition resumeChild :: "nat \<Rightarrow> (nat \<Rightarrow> widget) \<Rightarrow> (nat \<Rightarrow> widget)" where
  "resumeChild sp h = (if w_lastActiveState (h sp) then onHeap sp activate h else h)"

definition resume :: "'a scene_base_scheme \<Rightarrow> 'a scene_base_scheme" where
  "resume s = s\<lparr> heap := fold resumeChild (children s) (heap s) \<rparr>"

text \<open>
  \<open>raiseOverlay\<close> (lines 248-263); \<open>None\<close> is a call with no widget. The loop body skips
  always-active children, and snapshots and deactivates every other child but the
  overlay.
\<close>

definition raiseChild :: "nat \<Rightarrow> nat \<Rightarrow> (nat \<Rightarrow> widget) \<Rightarrow> (nat \<Rightarrow> widget)" where
  "raiseChild ovs sp h =
     (if w_alwaysActive (h sp) then h
      else if sp \<noteq> ovs
      then onHeap sp deactivate (onHeap sp (\<lambda>w. w\<lparr> w_lastActiveState := w_active w \<rparr>) h)
      else h)"

definition raiseOverlay :: "nat option \<Rightarrow> 'a scene_base_scheme \<Rightarrow> 'a scene_base_scheme" where
  "raiseOverlay ovs_arg s =
     (case ovs_arg of
        None \<Rightarrow> s
      | Some ovs \<Rightarrow>
          let h1 = onHeap ovs (\<lambda>w. w\<lparr> w_oriZ := w_z w \<rparr>) (heap s);
              h2 = onHeap ovs (setZ 0x111) h1;
              h3 = fold (raiseChild ovs) (children s) h2;
              h4 = onHeap ovs activate (onHeap ovs showWidget h3)
          in s\<lparr> overlay := Some ovs, heap := h4, dimRendered := True \<rparr>)"

text \<open>\<open>closeOverlay\<close> (lines 265-277).\<close>

definition closeChild :: "nat \<Rightarrow> nat \<Rightarrow> (nat \<Rightarrow> widget) \<Rightarrow> (nat \<Rightarrow> widget)" where
  "closeChild ov sp h =
     (if sp \<noteq> ov \<and> w_lastActiveState (h sp) then onHeap sp activate h else h)"

definition closeOverlay :: "'a scene_base_scheme \<Rightarrow> 'a scene_base_scheme" where
  "closeOverlay s =
     (case overlay s of
        None \<Rightarrow> s
      | Some ov \<Rightarrow>
          let h1 = onHeap ov deactivate (onHeap ov hideWidget (heap s));
              h2 = fold (closeChild ov) (children s) h1;
              h3 = onHeap ov (\<lambda>w. setZ (w_oriZ w) w) h2
          in s\<lparr> heap := h3, dimRendered := False, overlay := None \<rparr>)"

section \<open>Per-key input cooldown\<close>

text \<open>The expression \<open>this._buttonCooldown[k] || 0\<close>: an unset slot reads 0.\<close>

definition orZero :: "int option \<Rightarrow> int" where
  "orZero v = (case v of None \<Rightarrow> 0 | Some x \<Rightarrow> x)"

definition heatupButton :: "nat \<Rightarrow> 'a scene_base_scheme \<Rightarrow> 'a scene_base_scheme" where
  "heatupButton kid s = s\<lparr> buttonCooldown := (buttonCooldown s)(kid \<mapsto> 4) \<rparr>"

definition isButtonCooled :: "nat \<Rightarrow> 'a scene_base_scheme \<Rightarrow> bool" where
  "isButtonCooled kid s \<longleftrightarrow> orZero (buttonCooldown s kid) = 0"

text \<open>
  \<open>updateButtonCooldown\<close> (lines 384-390) is a method of \<open>Scene_Load\<close> only; its loop
  runs over the keys \<open>0 \<dots> 0xff - 1\<close>.
\<close>

definition cooldownStep :: "nat \<Rightarrow> (nat \<Rightarrow> int option) \<Rightarrow> (nat \<Rightarrow> int option)" where
  "cooldownStep i cd = (if orZero (cd i) > 0 then cd(i \<mapsto> orZero (cd i) - 1) else cd)"

definition updateButtonCooldown :: "'a scene_base_scheme \<Rightarrow> 'a scene_base_scheme" where
  "updateButtonCooldown s = s\<lparr> buttonCooldown := fold cooldownStep [0 ..< 0xff] (buttonCooldown s) \<rparr>"

text \<open>
  \<open>Scene_Load\<close> adds the loading flags. Its \<open>update\<close> (lines 346-351) calls the base
  update, \<open>updateLoading\<close>, \<open>updateButtonCooldown\<close> and \<open>updateProgressBar\<close>. Whether
  graphics and sound are ready is read from the renderer and the audio system, so both
  are parameters; the splash image, the text and the progress bar are pure display and
  are left out. \<open>processLoadingComplete\<close> sets the timer to \<open>0xff\<close> and asks the scene
  manager for the next scene.
\<close>

record scene_load = scene_base +
  allLoaded :: bool
  loading_timer :: int
  gotoRequested :: bool

definition processLoadingComplete :: "scene_load \<Rightarrow> scene_load" where
  "processLoadingComplete s = s\<lparr> loading_timer := 0xff, gotoRequested := True \<rparr>"

definition updateLoading :: "bool \<Rightarrow> bool \<Rightarrow> scene_load \<Rightarrow> scene_load" where
  "updateLoading gr sr s =
     (let s1 = (if gr \<and> sr then s\<lparr> allLoaded := True \<rparr> else s)
      in if allLoaded s1
         then (let s2 = (if loading_timer s1 < 60 then s1\<lparr> loading_timer := loading_timer s1 + 1 \<rparr> else s1)
               in if loading_timer s2 = 60 then processLoadingComplete s2 else s2)
         else s1)"

definition Scene_Load_update :: "bool \<Rightarrow> bool \<Rightarrow> scene_load \<Rightarrow> scene_load" where
  "Scene_Load_update gr sr s = updateButtonCooldown (updateLoading gr sr (update s))"


section \<open>Scene_Intro: the splash sequence and its skip\<close>

text \<open>
  \<open>Scene_Intro\<close> (lines 468-591) adds a frame timer and the moments of the splash
  sequence, which \<open>start\<close> sets. Its \<open>update\<close> (lines 499-507) runs the base update,
  advances the timer, runs \<open>updateSplashStage\<close> and \<open>updateSkip\<close>, and advances the
  shock-wave filter when one was requested. Sounds and the splash images belong to the
  audio system and the renderer and are left out; a request to the scene manager for the
  title scene is recorded. Whether the mouse button was triggered on this frame, and the
  key id \<open>Input.keymap.kMOUSE1\<close>, are read from the input system and are parameters.
\<close>

record scene_intro = scene_base +
  timer :: int
  fadeDuration :: int
  NTOUmoment :: int
  ENDmoment :: int
  requestFilterUpdate :: bool
  filterTime :: int
  gotoTitle :: bool

definition Scene_Intro_start :: "scene_intro \<Rightarrow> scene_intro" where
  "Scene_Intro_start s =
     (start s)\<lparr> timer := 0, fadeDuration := 30, NTOUmoment := 150, ENDmoment := 500 \<rparr>"

definition startSplashEffect :: "scene_intro \<Rightarrow> scene_intro" where
  "startSplashEffect s = s\<lparr> requestFilterUpdate := True \<rparr>"

definition updateSplashStage :: "scene_intro \<Rightarrow> scene_intro" where
  "updateSplashStage s =
     (if timer s = NTOUmoment s then startFadeOut None s
      else if timer s = NTOUmoment s + fadeDuration s then startFadeIn None s
      else if timer s = NTOUmoment s + fadeDuration s + 40 then s
      else if timer s = NTOUmoment s + fadeDuration s + 60 then startSplashEffect s
      else if timer s = ENDmoment s then (startFadeOut None s)\<lparr> gotoTitle := True \<rparr>
      else s)"

definition updateSkip :: "bool \<Rightarrow> nat \<Rightarrow> scene_intro \<Rightarrow> scene_intro" where
  "updateSkip triggered kMOUSE1 s =
     (if \<not> triggered then s
      else
        let s1 = heatupButton kMOUSE1 s
        in if timer s1 < NTOUmoment s1 then s1\<lparr> timer := NTOUmoment s1 - 1 \<rparr>
           else if timer s1 < NTOUmoment s1 + fadeDuration s1
           then s1\<lparr> timer := NTOUmoment s1 + fadeDuration s1 - 1 \<rparr>
           else if timer s1 < ENDmoment s1 then s1\<lparr> timer := ENDmoment s1 - 1 \<rparr>
           else s1)"

definition Scene_Intro_update :: "bool \<Rightarrow> nat \<Rightarrow> scene_intro \<Rightarrow> scene_intro" where
  "Scene_Intro_update triggered kMOUSE1 s =
     (let s1 = update s;
          s2 = s1\<lparr> timer := timer s1 + 1 \<rparr>;
          s3 = updateSplashStage s2;
          s4 = updateSkip triggered kMOUSE1 s3
      in if requestFilterUpdate s4 then s4\<lparr> filterTime := filterTime s4 + 1 \<rparr> else s4)"

text \<open>A run of frames of the intro scene, one flag per frame: was the button triggered.\<close>

definition Scene_Intro_frames :: "nat \<Rightarrow> bool list \<Rightarrow> scene_intro \<Rightarrow> scene_intro" where
  "Scene_Intro_frames kMOUSE1 clicks s = fold (\<lambda>c. Scene_Intro_update c kMOUSE1) clicks s"

section \<open>Scene_Game: cards, sprites and the scene record\<close>

text \<open>
  A card object carries its colour, value and numeric id; its mutable \<open>sprite\<close> field is
  kept in the scene (\<open>cardSprite\<close>, by card identity), because the hands, the callbacks
  and the deferred calls all share the card by reference. Card sprites live in a heap of
  their own; the pool, a card's \<open>sprite\<close> field and a callback's captured sprite are
  addresses into it.
\<close>

record card =
  c_id :: nat
  c_color :: int
  c_value :: int
  c_numID :: int

record canvas =
  cv_x :: rat
  cv_y :: rat
  cv_width :: rat
  cv_height :: rat

datatype container = NoParent | OnStage | InHand nat | InDiscard

text \<open>
  The closures handed to \<open>moveto\<close>, by the function that builds them:
  \<open>arrangeHandCards\<close>, \<open>addDiscardCard\<close> (capturing the card) and
  \<open>processCardDrawAnimation\<close> (capturing sprite, player, card, \<open>show\<close> and \<open>ar\<close>);
  and the calls handed to \<open>setTimeout\<close>.
\<close>

datatype callback =
    ArrangeArrived
  | DiscardArrived card
  | DrawArrived nat int card bool bool

datatype deferred =
    SendCardToDeck int card
  | ProcessCardDraw int card bool bool nat

record card_sprite =
  sp_index :: nat
  handIndex :: int
  playerIndex :: int
  sp_visible :: bool
  sp_x :: rat
  sp_y :: rat
  sp_z :: int
  sp_rotation :: rat
  sp_parent :: container
  sp_texture :: "string option"
  sp_moving :: "(rat \<times> rat \<times> callback) option"

record player =
  hand :: "card list"
  lastHand :: "card list"

text \<open>
  What the scene reads from its collaborators: the card rectangle and the spacing of the
  renderer, the number of players of the game manager, the renderer's table of image
  names, and the \<open>Color\<close> and \<open>Value\<close> enumerations, whose members are declared
  elsewhere.
\<close>

record color_enum =
  Color_RED :: int
  Color_BLUE :: int
  Color_YELLOW :: int
  Color_GREEN :: int
  Color_WILD :: int

record value_enum =
  Value_REVERSE :: int
  Value_SKIP :: int
  Value_DRAW_TWO :: int
  Value_WILD_DRAW_FOUR :: int
  Value_WILD :: int
  Value_TRADE :: int
  Value_WILD_HIT_ALL :: int
  Value_DISCARD_ALL :: int
  Value_WILD_CHAOS :: int

record env =
  CardRectReg_width :: rat
  CardRectReg_height :: rat
  spacing :: rat
  playerNumber :: nat
  graphicsTable :: "string \<Rightarrow> string option"
  Color :: color_enum
  Value :: value_enum

record scene_game = scene_base +
  cardSpritePoolSize :: int
  animationCount :: int
  playerPhase :: bool
  deckSprite :: canvas
  discardPile :: canvas
  handCanvas :: "canvas list"
  players :: "player list"
  sprites :: "nat \<Rightarrow> card_sprite"
  nextSprite :: nat
  spritePool :: "nat list option"
  cardSprite :: "nat \<Rightarrow> nat option"
  timers :: "(nat \<times> deferred) list"

text \<open>
  A call either returns or throws; either way the scene keeps what was written before.
  \<open>NonFinite\<close> is not a JavaScript exception: it marks the places where the source's
  arithmetic divides by zero and goes on with \<open>Infinity\<close> or \<open>NaN\<close>, which the rational
  numbers of this model do not have.
\<close>

datatype js_fault = Throws js_error | NonFinite

datatype ('r, 's) outcome = Done 'r 's | Failed js_fault 's

definition stateOf :: "('r, 's) outcome \<Rightarrow> 's" where
  "stateOf r = (case r of Done x s \<Rightarrow> s | Failed e s \<Rightarrow> s)"

definition andThen :: "('r, 's) outcome \<Rightarrow> ('r \<Rightarrow> 's \<Rightarrow> ('q, 's) outcome) \<Rightarrow> ('q, 's) outcome" where
  "andThen r f = (case r of Done x s \<Rightarrow> f x s | Failed e s \<Rightarrow> Failed e s)"

text \<open>Reading \<open>xs[i]\<close>: \<open>undefined\<close> (here \<open>None\<close>) outside the array.\<close>

definition arrayGet :: "'a list \<Rightarrow> int \<Rightarrow> 'a option" where
  "arrayGet xs i = (if 0 \<le> i \<and> nat i < length xs then Some (xs ! nat i) else None)"

text \<open>
  The constructor (lines 784-790). The deck sprite, the discard pile and the hand
  canvases are built by \<open>create\<close> from the renderer's screen size before the pool is;
  they are parameters here, as are the players, which \<open>gameStart\<close> takes from the game.
  The pool itself does not exist before \<open>createCardSpritePool\<close>.
\<close>

definition Scene_Game_new ::
  "scene_base \<Rightarrow> canvas \<Rightarrow> canvas \<Rightarrow> canvas list \<Rightarrow> player list \<Rightarrow> (nat \<Rightarrow> card_sprite) \<Rightarrow> scene_game" where
  "Scene_Game_new b deck pile canvases ps h =
     scene_base.extend b
       (scene_game.fields 116 0 False deck pile canvases ps h 0 None (\<lambda>c. None) [])"

section \<open>Sprite pool\<close>

definition onSprite :: "nat \<Rightarrow> (card_sprite \<Rightarrow> card_sprite) \<Rightarrow> scene_game \<Rightarrow> scene_game" where
  "onSprite a f s = s\<lparr> sprites := (sprites s)(a := f (sprites s a)) \<rparr>"

text \<open>
  Modelled from the spec: the methods of the \<open>Sprite\<close> class, which is not in this file.
  \<open>setPOS\<close> writes the position, \<open>show\<close>/\<open>hide\<close> the visibility, \<open>setZ\<close> the z-order,
  \<open>rotateDegree\<close> the rotation; \<open>moveto(x, y, f)\<close> starts an animation handle toward
  \<open>(x, y)\<close> with completion callback \<open>f\<close>, replacing the sprite's current handle.
\<close>

definition setPOS :: "rat \<Rightarrow> rat \<Rightarrow> card_sprite \<Rightarrow> card_sprite" where
  "setPOS x y sp = sp\<lparr> sp_x := x, sp_y := y \<rparr>"

definition showSprite :: "card_sprite \<Rightarrow> card_sprite" where
  "showSprite sp = sp\<lparr> sp_visible := True \<rparr>"

definition hideSprite :: "card_sprite \<Rightarrow> card_sprite" where
  "hideSprite sp = sp\<lparr> sp_visible := False \<rparr>"

definition setSpriteZ :: "int \<Rightarrow> card_sprite \<Rightarrow> card_sprite" where
  "setSpriteZ z sp = sp\<lparr> sp_z := z \<rparr>"

definition rotateDegree :: "rat \<Rightarrow> card_sprite \<Rightarrow> card_sprite" where
  "rotateDegree deg sp = sp\<lparr> sp_rotation := deg \<rparr>"

definition moveto :: "rat \<Rightarrow> rat \<Rightarrow> callback \<Rightarrow> card_sprite \<Rightarrow> card_sprite" where
  "moveto x y f sp = sp\<lparr> sp_moving := Some (x, y, f) \<rparr>"

text \<open>
  \<open>createCardSprite\<close> (lines 885-897) reads \<open>this.spritePool.length\<close> first, which
  throws while there is no pool. The new sprite is hidden, unassigned (\<open>-2\<close>), out of
  any hand (\<open>-1\<close>) and sits on the middle of the deck.
\<close>

definition deckAnchor :: "scene_game \<Rightarrow> rat \<times> rat" where
  "deckAnchor s =
     (cv_x (deckSprite s) + cv_width (deckSprite s) / 2,
      cv_y (deckSprite s) + cv_height (deckSprite s) / 2)"

definition createCardSprite :: "env \<Rightarrow> scene_game \<Rightarrow> (nat, scene_game) outcome" where
  "createCardSprite e s =
     (case spritePool s of
        None \<Rightarrow> Failed (Throws TypeError) s
      | Some pool \<Rightarrow>
          let i = length pool;
              a = nextSprite s;
              sp = \<lparr> sp_index = i, handIndex = - 1, playerIndex = - 2, sp_visible = False,
                     sp_x = fst (deckAnchor s), sp_y = snd (deckAnchor s), sp_z = 0x11,
                     sp_rotation = 0, sp_parent = OnStage,
                     sp_texture = graphicsTable e ''CardBack'', sp_moving = None \<rparr>
          in Done a (s\<lparr> sprites := (sprites s)(a := sp), nextSprite := Suc a \<rparr>))"

definition pushSprite :: "nat \<Rightarrow> scene_game \<Rightarrow> scene_game" where
  "pushSprite a s = s\<lparr> spritePool := map_option (\<lambda>pool. pool @ [a]) (spritePool s) \<rparr>"

text \<open>\<open>createCardSpritePool\<close> (lines 877-883): a fresh list, then one sprite per round.\<close>

fun createCardSpritePool_loop :: "env \<Rightarrow> nat \<Rightarrow> scene_game \<Rightarrow> (unit, scene_game) outcome" where
  "createCardSpritePool_loop e 0 s = Done () s"
| "createCardSpritePool_loop e (Suc n) s =
     andThen (createCardSprite e s) (\<lambda>a s1. createCardSpritePool_loop e n (pushSprite a s1))"

definition createCardSpritePool :: "env \<Rightarrow> scene_game \<Rightarrow> (unit, scene_game) outcome" where
  "createCardSpritePool e s =
     createCardSpritePool_loop e (nat (cardSpritePoolSize s)) (s\<lparr> spritePool := Some [] \<rparr>)"

text \<open>
  \<open>getIdleCardSprite\<close> (lines 865-875): the first sprite of the pool whose owner tag is
  \<open>-2\<close>; when there is none (or no pool to scan) the counter is raised and a new sprite
  is created and pushed.
\<close>

definition firstIdle :: "scene_game \<Rightarrow> nat option" where
  "firstIdle s =
     (case spritePool s of
        None \<Rightarrow> None
      | Some pool \<Rightarrow> List.find (\<lambda>a. playerIndex (sprites s a) = - 2) pool)"

definition getIdleCardSprite :: "env \<Rightarrow> scene_game \<Rightarrow> (nat, scene_game) outcome" where
  "getIdleCardSprite e s =
     (case firstIdle s of
        Some a \<Rightarrow> Done a s
      | None \<Rightarrow>
          andThen (createCardSprite e (s\<lparr> cardSpritePoolSize := cardSpritePoolSize s + 1 \<rparr>))
            (\<lambda>a s1. Done a (pushSprite a s1)))"


section \<open>Image symbols\<close>

text \<open>A number appended to a string: its decimal digits, with a sign when negative.\<close>

definition digitChar :: "nat \<Rightarrow> char" where
  "digitChar d =
     (if d = 0 then CHR ''0'' else if d = 1 then CHR ''1'' else if d = 2 then CHR ''2''
      else if d = 3 then CHR ''3'' else if d = 4 then CHR ''4'' else if d = 5 then CHR ''5''
      else if d = 6 then CHR ''6'' else if d = 7 then CHR ''7'' else if d = 8 then CHR ''8''
      else CHR ''9'')"

function showNat :: "nat \<Rightarrow> string" where
  "showNat n = (if n < 10 then [digitChar n] else showNat (n div 10) @ [digitChar (n mod 10)])"
  by pat_completeness auto
termination
  by (relation "measure id") auto

definition showInt :: "int \<Rightarrow> string" where
  "showInt i = (if i < 0 then ''-'' @ showNat (nat (- i)) else showNat (nat i))"

text \<open>
  \<open>getCardImage\<close> (lines 1199-1239). The first \<open>switch\<close> throws on a colour that is none
  of the five; the second appends the card's value itself when it is none of the nine
  named ones (that is how the number cards get their symbol).
\<close>

definition colorSymbol :: "color_enum \<Rightarrow> int \<Rightarrow> js_error + string" where
  "colorSymbol C c =
     (if c = Color_RED C then Inr ''Red''
      else if c = Color_BLUE C then Inr ''Blue''
      else if c = Color_YELLOW C then Inr ''Yellow''
      else if c = Color_GREEN C then Inr ''Green''
      else if c = Color_WILD C then Inr ''Wild''
      else Inl (InvalidCardColor c))"

definition valueSymbol :: "value_enum \<Rightarrow> int \<Rightarrow> string" where
  "valueSymbol V v =
     (if v = Value_REVERSE V then ''Reverse''
      else if v = Value_SKIP V then ''Ban''
      else if v = Value_DRAW_TWO V then ''Plus2''
      else if v = Value_WILD_DRAW_FOUR V then ''Plus4''
      else if v = Value_WILD V then ''Wild''
      else if v = Value_TRADE V then ''Exchange''
      else if v = Value_WILD_HIT_ALL V then ''Hit''
      else if v = Value_DISCARD_ALL V then ''Discard''
      else if v = Value_WILD_CHAOS V then ''Chaos''
      else showInt v)"

definition getCardSymbol :: "env \<Rightarrow> card \<Rightarrow> js_error + string" where
  "getCardSymbol e crd =
     (case colorSymbol (Color e) (c_color crd) of
        Inl err \<Rightarrow> Inl err
      | Inr symbol \<Rightarrow>
          let symbol1 = symbol @ valueSymbol (Value e) (c_value crd);
              symbol2 = (if c_value crd > 9 \<and> c_numID crd > 0
                         then symbol1 @ ''_'' @ showInt (c_numID crd + 1)
                         else symbol1)
          in Inr symbol2)"

definition getCardImage :: "env \<Rightarrow> card \<Rightarrow> js_error + string option" where
  "getCardImage e crd =
     (case getCardSymbol e crd of
        Inl err \<Rightarrow> Inl err
      | Inr symbol \<Rightarrow> Inr (graphicsTable e symbol))"

text \<open>
  The colours the first \<open>switch\<close> names, and the values the second one names.
\<close>

definition knownColor :: "color_enum \<Rightarrow> int \<Rightarrow> bool" where
  "knownColor C c \<longleftrightarrow>
     c = Color_RED C \<or> c = Color_BLUE C \<or> c = Color_YELLOW C \<or> c = Color_GREEN C \<or> c = Color_WILD C"

definition namedValue :: "value_enum \<Rightarrow> int \<Rightarrow> bool" where
  "namedValue V v \<longleftrightarrow>
     v = Value_REVERSE V \<or> v = Value_SKIP V \<or> v = Value_DRAW_TWO V \<or> v = Value_WILD_DRAW_FOUR V
     \<or> v = Value_WILD V \<or> v = Value_TRADE V \<or> v = Value_WILD_HIT_ALL V
     \<or> v = Value_DISCARD_ALL V \<or> v = Value_WILD_CHAOS V"

section \<open>Hand layout\<close>

text \<open>
  \<open>Number.prototype.toFixed(3)\<close> followed by \<open>parseFloat\<close>: the nearest multiple of
  \<open>1/1000\<close>, ties away from zero.
\<close>

definition toFixed3 :: "rat \<Rightarrow> rat" where
  "toFixed3 q =
     (if q < 0 then - (of_int \<lfloor>- q * 1000 + 1 / 2\<rfloor> / 1000)
      else of_int \<lfloor>q * 1000 + 1 / 2\<rfloor> / 1000)"

definition stackPortion :: "rat \<Rightarrow> rat \<Rightarrow> nat \<Rightarrow> rat option" where
  "stackPortion canvasWidth cardWidth cardSize =
     (if of_nat cardSize * cardWidth = 0 then None
      else Some (toFixed3 ((canvasWidth - cardWidth) / (of_nat cardSize * cardWidth))))"

definition totalWidth :: "rat \<Rightarrow> rat \<Rightarrow> nat \<Rightarrow> rat" where
  "totalWidth cardWidth portion cardSize = cardWidth + cardWidth * portion * (of_nat cardSize - 1)"

definition base_pos :: "rat \<Rightarrow> rat \<Rightarrow> rat" where
  "base_pos canvasWidth tw = (canvasWidth - tw) / 2"

text \<open>The target \<open>(dx, dy)\<close> of the \<open>i\<close>-th card, by the side of the seat.\<close>

definition cardTarget :: "env \<Rightarrow> int \<Rightarrow> rat \<Rightarrow> rat \<Rightarrow> rat \<Rightarrow> nat \<Rightarrow> rat \<times> rat" where
  "cardTarget e side canvasHeight base portion i =
     (let cardWidth = CardRectReg_width e;
          cardHeight = CardRectReg_height e;
          along = base + cardWidth * portion * of_nat i + cardWidth / 2
      in if side mod 2 = 0
         then (along,
               if side = 0 then canvasHeight - cardHeight + cardHeight / 2 else cardHeight / 2)
         else (if side = 1 then spacing e + cardHeight / 2
               else canvasHeight - cardHeight + cardHeight / 2,
               along))"

text \<open>
  One round of either \<open>for\<close> loop of \<open>arrangeHandCards\<close> (lines 956-966, 969-979): the
  sprite is put on the middle of the canvas, raised, counted as animating, made a child
  of the canvas and sent to its target. A card without a sprite throws at \<open>setPOS\<close>.
\<close>

fun arrangeHandCards_loop ::
  "env \<Rightarrow> nat \<Rightarrow> rat \<Rightarrow> rat \<Rightarrow> (rat \<times> rat) option \<Rightarrow> nat \<Rightarrow> card list \<Rightarrow> scene_game \<Rightarrow> (unit, scene_game) outcome" where
  "arrangeHandCards_loop e index canvasWidth canvasHeight layout i [] s = Done () s"
| "arrangeHandCards_loop e index canvasWidth canvasHeight layout i (crd # rest) s =
     (case cardSprite s (c_id crd) of
        None \<Rightarrow> Failed (Throws TypeError) s
      | Some a \<Rightarrow>
          let s1 = onSprite a (setSpriteZ (0x11 + int i) \<circ> setPOS (canvasWidth / 2) (canvasHeight / 2)) s
          in (case layout of
                None \<Rightarrow> Failed NonFinite s1
              | Some (portion, base) \<Rightarrow>
                  let target = cardTarget e (int index mod 4) canvasHeight base portion i;
                      s2 = s1\<lparr> animationCount := animationCount s1 + 1 \<rparr>;
                      s3 = onSprite a (\<lambda>sp. sp\<lparr> sp_parent := InHand index \<rparr>) s2;
                      s4 = onSprite a (moveto (fst target) (snd target) ArrangeArrived) s3
                  in arrangeHandCards_loop e index canvasWidth canvasHeight layout (Suc i) rest s4))"

text \<open>
  \<open>arrangeHandCards\<close> (lines 943-983). \<open>this.players[index]\<close> and
  \<open>this.handCanvas[index]\<close> are read before anything is written; either being
  \<open>undefined\<close> throws. The stack portion, the total width and the base position are
  computed once, before the loop; with an empty hand the loop never uses them.
\<close>

definition handLayout :: "rat \<Rightarrow> rat \<Rightarrow> nat \<Rightarrow> (rat \<times> rat) option" where
  "handLayout canvasWidth cardWidth cardSize =
     (case stackPortion canvasWidth cardWidth cardSize of
        None \<Rightarrow> None
      | Some portion \<Rightarrow>
          Some (portion, base_pos canvasWidth (totalWidth cardWidth portion cardSize)))"

definition arrangeHandCards :: "env \<Rightarrow> int \<Rightarrow> scene_game \<Rightarrow> (unit, scene_game) outcome" where
  "arrangeHandCards e index s =
     (case arrayGet (players s) index of
        None \<Rightarrow> Failed (Throws TypeError) s
      | Some cur_player \<Rightarrow>
          (case arrayGet (handCanvas s) index of
             None \<Rightarrow> Failed (Throws TypeError) s
           | Some hcs \<Rightarrow>
               let cardSize = length (hand cur_player);
                   canvasWidth = (if index mod 2 = 0 then cv_width hcs else cv_height hcs);
                   canvasHeight = (if index mod 2 = 0 then cv_height hcs else cv_width hcs);
                   layout = handLayout canvasWidth (CardRectReg_width e) cardSize
               in andThen
                    (arrangeHandCards_loop e (nat index) canvasWidth canvasHeight layout 0
                       (hand cur_player) s)
                    (\<lambda>u s'. Done ()
                       (s'\<lparr> players := (players s')[nat index :=
                              cur_player\<lparr> lastHand := hand cur_player \<rparr>] \<rparr>))))"

section \<open>Animation scheduler\<close>

text \<open>
  Modelled from the spec: the display tree of the renderer, which is not in this file.
  \<open>removeChild\<close> detaches the sprite if it is a child of that container, \<open>addChild\<close>
  makes it one, and \<open>getGlobalPosition\<close> is the sprite's position on the screen: its own
  position, offset by the container it is in.
\<close>

definition removeChildOf :: "container \<Rightarrow> card_sprite \<Rightarrow> card_sprite" where
  "removeChildOf c sp = (if sp_parent sp = c then sp\<lparr> sp_parent := NoParent \<rparr> else sp)"

definition getGlobalPosition :: "scene_game \<Rightarrow> card_sprite \<Rightarrow> rat \<times> rat" where
  "getGlobalPosition s sp =
     (case sp_parent sp of
        InHand i \<Rightarrow>
          (case arrayGet (handCanvas s) (int i) of
             None \<Rightarrow> (sp_x sp, sp_y sp)
           | Some hc \<Rightarrow> (cv_x hc + sp_x sp, cv_y hc + sp_y sp))
      | InDiscard \<Rightarrow> (cv_x (discardPile s) + sp_x sp, cv_y (discardPile s) + sp_y sp)
      | OnStage \<Rightarrow> (sp_x sp, sp_y sp)
      | NoParent \<Rightarrow> (sp_x sp, sp_y sp))"

text \<open>
  \<open>addDiscardCard\<close> (lines 997-1014). \<open>rnd\<close> is what \<open>randInt(0, 40)\<close> returned. The
  counter is raised once, before \<open>moveto\<close> is given the closure.
\<close>

definition addDiscardCard :: "env \<Rightarrow> card \<Rightarrow> int \<Rightarrow> int \<Rightarrow> scene_game \<Rightarrow> (unit, scene_game) outcome" where
  "addDiscardCard e crd player_id rnd s =
     (case cardSprite s (c_id crd) of
        None \<Rightarrow> Failed (Throws TypeError) s
      | Some a \<Rightarrow>
          let s1 = onSprite a showSprite s
          in andThen
               (if player_id \<ge> 0
                then (if playerNumber e = 0 then Failed NonFinite s1
                      else Done () (onSprite a
                             (rotateDegree (- 20 + of_int player_id * (360 / of_nat (playerNumber e)) + of_int rnd)) s1))
                else Done () s1)
               (\<lambda>u s2.
                  let sx = cv_x (discardPile s2) + cv_width (discardPile s2) / 2;
                      sy = cv_y (discardPile s2) + cv_height (discardPile s2) / 2;
                      s3 = s2\<lparr> animationCount := animationCount s2 + 1 \<rparr>
                  in Done () (onSprite a (moveto sx sy (DiscardArrived crd)) s3)))"

text \<open>
  \<open>sendCardToDeck\<close> (lines 1191-1197). The owner tag is written first; a player without
  a hand canvas then throws at \<open>removeChild\<close>, before the sprite is hidden and moved.
\<close>

definition sendCardToDeck :: "int \<Rightarrow> card \<Rightarrow> scene_game \<Rightarrow> (unit, scene_game) outcome" where
  "sendCardToDeck pid crd s =
     (case cardSprite s (c_id crd) of
        None \<Rightarrow> Failed (Throws TypeError) s
      | Some a \<Rightarrow>
          let s1 = onSprite a (\<lambda>sp. sp\<lparr> playerIndex := - 2 \<rparr>) s;
              sx = fst (deckAnchor s1);
              sy = snd (deckAnchor s1)
          in (case arrayGet (handCanvas s1) pid of
                None \<Rightarrow> Failed (Throws TypeError) s1
              | Some hc \<Rightarrow>
                  let s2 = onSprite a (removeChildOf (InHand (nat pid))) s1
                  in Done () (onSprite a (setPOS sx sy \<circ> hideSprite) s2)))"

text \<open>
  The three closures. The one of \<open>addDiscardCard\<close> (lines 1008-1013) plays the colour
  effect (an empty method), lowers the counter, and puts the card's sprite into the
  discard pile. The one of \<open>processCardDrawAnimation\<close> (lines 1181-1186) loads the
  card's image first, which may throw before the counter is lowered.
\<close>

definition runCallback :: "env \<Rightarrow> callback \<Rightarrow> scene_game \<Rightarrow> (unit, scene_game) outcome" where
  "runCallback e f s =
     (case f of
        ArrangeArrived \<Rightarrow> Done () (s\<lparr> animationCount := animationCount s - 1 \<rparr>)
      | DiscardArrived crd \<Rightarrow>
          let s1 = s\<lparr> animationCount := animationCount s - 1 \<rparr>
          in (case cardSprite s1 (c_id crd) of
                None \<Rightarrow> Failed (Throws TypeError) s1
              | Some a \<Rightarrow>
                  Done () (onSprite a
                    (setPOS (cv_width (discardPile s1) / 2) (cv_height (discardPile s1) / 2)
                       \<circ> (\<lambda>sp. sp\<lparr> sp_parent := InDiscard \<rparr>)) s1))
      | DrawArrived a pid crd shw ar \<Rightarrow>
          (case getCardImage e crd of
             Inl err \<Rightarrow> Failed (Throws err) s
           | Inr img \<Rightarrow>
               let s1 = onSprite a (\<lambda>sp. sp\<lparr> sp_texture := img \<rparr>) s;
                   s2 = s1\<lparr> animationCount := animationCount s1 - 1 \<rparr>
               in if shw then Done () (s2\<lparr> timers := timers s2 @ [(2000, SendCardToDeck pid crd)] \<rparr>)
                  else if ar then arrangeHandCards e pid s2
                  else Done () s2))"

text \<open>
  Modelled from the spec: the end of an animation handle. The sprite stands at its
  target, the handle is gone, and the completion callback runs once.
\<close>

definition arrive :: "env \<Rightarrow> nat \<Rightarrow> scene_game \<Rightarrow> (unit, scene_game) outcome" where
  "arrive e a s =
     (case sp_moving (sprites s a) of
        None \<Rightarrow> Done () s
      | Some (x, y, f) \<Rightarrow>
          runCallback e f (onSprite a (\<lambda>sp. (setPOS x y sp)\<lparr> sp_moving := None \<rparr>) s))"


text \<open>
  \<open>onCardPlay\<close> (lines 1135-1156). A card played by the system (\<open>pid == -1\<close>) gets an
  idle sprite on the deck and its image; any other card leaves its hand canvas where it
  stands on the screen. Then the sprite is raised, marked in play (\<open>-1\<close>) and sent to the
  discard pile.
\<close>

definition onCardPlay :: "env \<Rightarrow> int \<Rightarrow> card \<Rightarrow> int \<Rightarrow> scene_game \<Rightarrow> (unit, scene_game) outcome" where
  "onCardPlay e pid crd rnd s =
     andThen
       (if pid = - 1
        then andThen (getIdleCardSprite e s)
               (\<lambda>a s1.
                  let s2 = onSprite a (setPOS (fst (deckAnchor s1)) (snd (deckAnchor s1))) s1
                  in (case getCardImage e crd of
                        Inl err \<Rightarrow> Failed (Throws err) s2
                      | Inr img \<Rightarrow>
                          let s3 = onSprite a (\<lambda>sp. sp\<lparr> sp_texture := img \<rparr>) s2
                          in Done () (s3\<lparr> cardSprite := (cardSprite s3)(c_id crd \<mapsto> a) \<rparr>)))
        else (case cardSprite s (c_id crd) of
                None \<Rightarrow> Failed (Throws TypeError) s
              | Some a \<Rightarrow>
                  let pos = getGlobalPosition s (sprites s a)
                  in (case arrayGet (handCanvas s) pid of
                        None \<Rightarrow> Failed (Throws TypeError) s
                      | Some hc \<Rightarrow>
                          Done () (onSprite a (setPOS (fst pos) (snd pos))
                                     (onSprite a (removeChildOf (InHand (nat pid))) s)))))
       (\<lambda>u s4.
          (case cardSprite s4 (c_id crd) of
             None \<Rightarrow> Failed (Throws TypeError) s4
           | Some a \<Rightarrow>
               let s5 = onSprite a (\<lambda>sp. (setSpriteZ 0x20 sp)\<lparr> handIndex := - 1 \<rparr>) s4;
                   s6 = onSprite a (\<lambda>sp. sp\<lparr> playerIndex := - 1 \<rparr>) s5
               in addDiscardCard e crd pid rnd s6))"

text \<open>
  \<open>processCardDrawAnimation\<close> (lines 1167-1189): the counter is raised, an idle sprite is
  shown and given to the player and to the card, and it is sent to the middle of the
  player's hand canvas (to \<open>(0, 0)\<close> for a negative player id).
\<close>

definition processCardDrawAnimation ::
  "env \<Rightarrow> int \<Rightarrow> card \<Rightarrow> bool \<Rightarrow> bool \<Rightarrow> nat \<Rightarrow> scene_game \<Rightarrow> (unit, scene_game) outcome" where
  "processCardDrawAnimation e pid crd shw ar ord s =
     andThen (getIdleCardSprite e (s\<lparr> animationCount := animationCount s + 1 \<rparr>))
       (\<lambda>a s1.
          let s2 = onSprite a showSprite s1;
              s3 = onSprite a (\<lambda>sp. sp\<lparr> playerIndex := pid \<rparr>) s2;
              s4 = s3\<lparr> cardSprite := (cardSprite s3)(c_id crd \<mapsto> a) \<rparr>
          in andThen
               (if pid \<ge> 0
                then (case arrayGet (handCanvas s4) pid of
                        None \<Rightarrow> Failed (Throws TypeError) s4
                      | Some hc \<Rightarrow>
                          if playerNumber e = 0 then Failed NonFinite s4
                          else
                            let sx = cv_x (deckSprite s4) + cv_width (deckSprite s4) / 3;
                                sy = cv_y (deckSprite s4) + cv_height (deckSprite s4) / 3;
                                deg = of_int pid * (360 / of_nat (playerNumber e));
                                dx = cv_x hc + cv_width hc / 2;
                                dy = cv_y hc + cv_height hc / 2
                            in Done (dx, dy) (onSprite a (rotateDegree deg \<circ> setPOS sx sy) s4))
                else Done (0, 0) s4)
               (\<lambda>d s5. Done ()
                  (onSprite a (moveto (fst d) (snd d) (DrawArrived a pid crd shw ar)) s5)))"

text \<open>
  \<open>onCardDraw\<close> (lines 1158-1165) defers one \<open>processCardDrawAnimation\<close> per card, the
  \<open>i\<close>-th by \<open>300 * i\<close> milliseconds; \<open>ar\<close> is set for the last card only.
\<close>

fun onCardDraw_loop :: "int \<Rightarrow> bool \<Rightarrow> nat \<Rightarrow> nat \<Rightarrow> card list \<Rightarrow> (nat \<times> deferred) list" where
  "onCardDraw_loop pid shw n i [] = []"
| "onCardDraw_loop pid shw n i (crd # rest) =
     (300 * i, ProcessCardDraw pid crd shw (i + 1 = n) i) # onCardDraw_loop pid shw n (Suc i) rest"

definition onCardDraw :: "int \<Rightarrow> card list \<Rightarrow> bool \<Rightarrow> scene_game \<Rightarrow> scene_game" where
  "onCardDraw pid cards shw s =
     s\<lparr> timers := timers s @ onCardDraw_loop pid shw (length cards) 0 cards \<rparr>"

text \<open>
  Modelled from the spec: the host's timer facility. A pending deferred call fires once
  and is gone.
\<close>

definition runDeferred :: "env \<Rightarrow> deferred \<Rightarrow> scene_game \<Rightarrow> (unit, scene_game) outcome" where
  "runDeferred e d s =
     (case d of
        SendCardToDeck pid crd \<Rightarrow> sendCardToDeck pid crd s
      | ProcessCardDraw pid crd shw ar ord \<Rightarrow> processCardDrawAnimation e pid crd shw ar ord s)"

definition fireTimer :: "env \<Rightarrow> nat \<Rightarrow> scene_game \<Rightarrow> (unit, scene_game) outcome" where
  "fireTimer e n s =
     (if n < length (timers s)
      then runDeferred e (snd (timers s ! n))
             (s\<lparr> timers := take n (timers s) @ drop (Suc n) (timers s) \<rparr>)
      else Done () s)"

section \<open>Busy predicate of the gameplay scene\<close>

definition processUserTurn :: "int \<Rightarrow> scene_game \<Rightarrow> scene_game" where
  "processUserTurn pid s = s\<lparr> playerPhase := True \<rparr>"

definition processUserTurnEnd :: "scene_game \<Rightarrow> scene_game" where
  "processUserTurnEnd s = s\<lparr> playerPhase := False \<rparr>"

definition isAnimationPlaying :: "scene_game \<Rightarrow> bool" where
  "isAnimationPlaying s \<longleftrightarrow> animationCount s \<noteq> 0"

definition isPlayerThinking :: "scene_game \<Rightarrow> bool" where
  "isPlayerThinking s \<longleftrightarrow> playerPhase s"

definition Scene_Game_isBusy :: "scene_game \<Rightarrow> bool" where
  "Scene_Game_isBusy s \<longleftrightarrow> isBusy s \<or> isAnimationPlaying s \<or> isPlayerThinking s"

text \<open>
  \<open>Scene_Game.update\<close> (lines 1030-1034) is the base update followed by the game's own
  update and the update of every pooled sprite. Both belong to collaborators; what a
  sprite's update does to the scene is to end its animation, which is the event
  \<open>Arrived\<close> below.
\<close>

definition Scene_Game_update :: "scene_game \<Rightarrow> scene_game" where
  "Scene_Game_update s = update s"

section \<open>What can happen to a gameplay scene\<close>

text \<open>
  The calls the scene manager, the game and the host make on a gameplay scene, as
  events: the frame tick, the pool's construction, the game's callbacks, an animation
  reaching its target and a timer firing. An exception ends the call, not the scene; the
  next event finds the scene as the call left it.
\<close>

datatype event =
    Tick
  | CreatePool
  | CardPlay int card int
  | CardDraw int "card list" bool
  | Arrange int
  | Arrived nat
  | TimerFired nat
  | UserTurn int
  | UserTurnEnd

definition step :: "env \<Rightarrow> event \<Rightarrow> scene_game \<Rightarrow> scene_game" where
  "step e ev s =
     (case ev of
        Tick \<Rightarrow> Scene_Game_update s
      | CreatePool \<Rightarrow> stateOf (createCardSpritePool e s)
      | CardPlay pid crd rnd \<Rightarrow> stateOf (onCardPlay e pid crd rnd s)
      | CardDraw pid cards shw \<Rightarrow> onCardDraw pid cards shw s
      | Arrange index \<Rightarrow> stateOf (arrangeHandCards e index s)
      | Arrived a \<Rightarrow> stateOf (arrive e a s)
      | TimerFired n \<Rightarrow> stateOf (fireTimer e n s)
      | UserTurn pid \<Rightarrow> processUserTurn pid s
      | UserTurnEnd \<Rightarrow> processUserTurnEnd s)"

definition run :: "env \<Rightarrow> event list \<Rightarrow> scene_game \<Rightarrow> scene_game" where
  "run e evs s = fold (step e) evs s"

section \<open>Bookkeeping of the pool\<close>

text \<open>
  The number of sprites in the pool; whether the counter \<open>cardSpritePoolSize\<close> equals it;
  and two relations between the scene before and after a call: the pool and its counter
  are the same, or a counted pool is still counted and has not shrunk.
\<close>

definition poolLength :: "scene_game \<Rightarrow> nat" where
  "poolLength s = (case spritePool s of None \<Rightarrow> 0 | Some pool \<Rightarrow> length pool)"

definition poolCounted :: "scene_game \<Rightarrow> bool" where
  "poolCounted s \<longleftrightarrow>
     (case spritePool s of
        None \<Rightarrow> False
      | Some pool \<Rightarrow> cardSpritePoolSize s = int (length pool))"

definition samePool :: "scene_game \<Rightarrow> scene_game \<Rightarrow> bool" where
  "samePool s s' \<longleftrightarrow>
     spritePool s' = spritePool s \<and> cardSpritePoolSize s' = cardSpritePoolSize s"

definition keepsPool :: "scene_game \<Rightarrow> scene_game \<Rightarrow> bool" where
  "keepsPool s s' \<longleftrightarrow> (poolCounted s \<longrightarrow> poolCounted s' \<and> poolLength s \<le> poolLength s')"


section \<open>Example scenes\<close>

text \<open>Concrete scenes on which the theorems below are exercised.\<close>

definition plainWidget :: widget where
  "plainWidget = \<lparr> w_active = False, w_lastActiveState = False, w_alwaysActive = False,
     w_isWindow = False, w_hasUpdate = False, w_z = 0, w_oriZ = 0, w_visible = False,
     w_disposed = False, w_frames = 0 \<rparr>"

definition emptyScene :: scene_base where
  "emptyScene = Scene_Base_new (\<lambda>a. plainWidget) 0 False"

text \<open>A started scene that owns two windows, \<open>0\<close> and \<open>1\<close>.\<close>

definition twoWindowScene :: scene_base where
  "twoWindowScene = addWindow 1 False (addWindow 0 False (start emptyScene))"

text \<open>
  A started scene with two children: \<open>0\<close> is flagged always-active and is active, \<open>1\<close> is
  an ordinary inactive widget.
\<close>

definition hudScene :: scene_base where
  "hudScene =
     (Scene_Base_new (\<lambda>a. plainWidget\<lparr> w_alwaysActive := (a = 0), w_active := (a = 0) \<rparr>) 0 False)
       \<lparr> children := [0, 1], active := True \<rparr>"

text \<open>
  A renderer with cards 50 wide and 80 high, four players, and enumerations with
  distinct members.
\<close>

definition exampleEnv :: env where
  "exampleEnv =
     \<lparr> CardRectReg_width = 50, CardRectReg_height = 80, spacing = 4, playerNumber = 4,
       graphicsTable = (\<lambda>name. if name = ''CardBack'' then Some ''card_back.png'' else None),
       Color = \<lparr> Color_RED = 0, Color_BLUE = 1, Color_YELLOW = 2, Color_GREEN = 3, Color_WILD = 4 \<rparr>,
       Value = \<lparr> Value_REVERSE = 10, Value_SKIP = 11, Value_DRAW_TWO = 12,
                 Value_WILD_DRAW_FOUR = 13, Value_WILD = 14, Value_TRADE = 15,
                 Value_WILD_HIT_ALL = 16, Value_DISCARD_ALL = 17, Value_WILD_CHAOS = 18 \<rparr> \<rparr>"

text \<open>
  A gameplay scene with one seat, whose player holds one card; the card's sprite is at
  address \<open>0\<close>, shown in the hand at \<open>(10, 20)\<close>, with hand index 3. It is the only
  sprite of the pool, and it is taken.
\<close>

definition heldSprite :: card_sprite where
  "heldSprite = \<lparr> sp_index = 0, handIndex = 3, playerIndex = 0, sp_visible = True,
     sp_x = 10, sp_y = 20, sp_z = 0x11, sp_rotation = 0, sp_parent = InHand 0,
     sp_texture = None, sp_moving = None \<rparr>"

definition exampleCard :: card where
  "exampleCard = \<lparr> c_id = 7, c_color = 0, c_value = 5, c_numID = 0 \<rparr>"

definition exampleGame :: scene_game where
  "exampleGame =
     (Scene_Game_new emptyScene
        \<lparr> cv_x = 400, cv_y = 300, cv_width = 100, cv_height = 150 \<rparr>
        \<lparr> cv_x = 600, cv_y = 250, cv_width = 200, cv_height = 200 \<rparr>
        [\<lparr> cv_x = 0, cv_y = 500, cv_width = 350, cv_height = 225 \<rparr>]
        [\<lparr> hand = [exampleCard], lastHand = [] \<rparr>]
        (\<lambda>a. heldSprite))
       \<lparr> cardSprite := [7 \<mapsto> 0], spritePool := Some [0], cardSpritePoolSize := 1,
         nextSprite := 1 \<rparr>"






section \<open>Unfolding the example scenes\<close>

lemmas game_simps = exampleGame_def Scene_Game_new_def scene_base.extend_def
  scene_game.fields_def emptyScene_def Scene_Base_new_def heldSprite_def exampleCard_def


section \<open>The fade runs monotonically to its target\<close>

lemma updateChild_fade [simp]:
  "fadingTimer (updateChild c s) = fadingTimer s"
  "fadeOpacity (updateChild c s) = fadeOpacity s"
  "fadingFlag (updateChild c s) = fadingFlag s"
  "fadeSign (updateChild c s) = fadeSign s"
  by (simp_all add: updateChild_def)

lemma fold_updateChild_fade:
  "fadingTimer (fold updateChild cs s) = fadingTimer s \<and>
   fadeOpacity (fold updateChild cs s) = fadeOpacity s \<and>
   fadingFlag (fold updateChild cs s) = fadingFlag s \<and>
   fadeSign (fold updateChild cs s) = fadeSign s"
  by (induction cs arbitrary: s) simp_all

lemma update_fade [simp]:
  "fadingTimer (update s) = fadingTimer (updateFading s)"
  "fadeOpacity (update s) = fadeOpacity (updateFading s)"
  "fadingFlag (update s) = fadingFlag (updateFading s)"
  "fadeSign (update s) = fadeSign (updateFading s)"
  by (simp_all add: update_def updateChildren_def fold_updateChild_fade)

lemma updateFading_idle: "fadingTimer s \<le> 0 \<Longrightarrow> updateFading s = s"
  by (simp add: updateFading_def)

lemma updateFading_timer:
  "0 < fadingTimer s \<Longrightarrow> fadingTimer (updateFading s) = fadingTimer s - 1"
  by (auto simp: updateFading_def onFadeComplete_def Let_def)

lemma updateFading_sign: "fadeSign (updateFading s) = fadeSign s"
  by (auto simp: updateFading_def onFadeComplete_def Let_def)

lemma updateFading_opacity:
  "0 < fadingTimer s \<Longrightarrow> fadeOpacity (updateFading s) =
     (if fadeSign s > 0 then fadeOpacity s - fadeOpacity s / of_int (fadingTimer s)
      else fadeOpacity s + (1 - fadeOpacity s) / of_int (fadingTimer s))"
  by (auto simp: updateFading_def onFadeComplete_def Let_def)

lemma updateFading_flag:
  "0 < fadingTimer s \<Longrightarrow> fadingTimer (updateFading s) = 0 \<Longrightarrow> fadingFlag (updateFading s) = 0"
  by (auto simp: updateFading_def onFadeComplete_def Let_def split: if_splits)

lemma fade_in_step:
  fixes a c D :: rat
  shows "c \<noteq> 0 \<Longrightarrow> a * D = c \<Longrightarrow> (a - a / c) * D = c - 1"
  by (simp add: left_diff_distrib)

lemma fade_out_step:
  fixes a c D :: rat
  shows "c \<noteq> 0 \<Longrightarrow> a * D = D - c \<Longrightarrow> (a + (1 - a) / c) * D = D - (c - 1)"
proof -
  assume c: "c \<noteq> 0" and e: "a * D = D - c"
  have "(a + (1 - a) / c) * D = a * D + (D - a * D) / c"
    by (simp add: algebra_simps add_divide_distrib diff_divide_distrib)
  also have "\<dots> = D - c + c / c" using e by simp
  finally show ?thesis using c by simp
qed

lemma fadeIn_closed_form:
  "int k \<le> durationOr30 dur \<Longrightarrow>
   fadingTimer ((update ^^ k) (startFadeIn dur s)) = durationOr30 dur - int k \<and>
   fadeSign ((update ^^ k) (startFadeIn dur s)) = 1 \<and>
   fadeOpacity ((update ^^ k) (startFadeIn dur s)) * of_int (durationOr30 dur) = of_int (durationOr30 dur - int k)"
proof (induction k)
  case 0
  then show ?case by (simp add: startFadeIn_def)
next
  case (Suc k)
  let ?t = "(update ^^ k) (startFadeIn dur s)"
  let ?D = "durationOr30 dur"
  from Suc have ih: "fadingTimer ?t = ?D - int k" "fadeSign ?t = 1"
    "fadeOpacity ?t * of_int ?D = of_int (?D - int k)" by simp_all
  from Suc.prems have pos: "0 < fadingTimer ?t" using ih(1) by simp
  have t: "fadingTimer (update ?t) = ?D - int (Suc k)"
    using pos ih(1) by (simp add: updateFading_timer)
  have sg: "fadeSign (update ?t) = 1" using ih(2) by (simp add: updateFading_sign)
  have ne: "(of_int (?D - int k) :: rat) \<noteq> 0" using pos ih(1) by simp
  have "fadeOpacity (update ?t) = fadeOpacity ?t - fadeOpacity ?t / of_int (?D - int k)"
    using pos ih by (simp add: updateFading_opacity)
  then have o: "fadeOpacity (update ?t) * of_int ?D = of_int (?D - int (Suc k))"
    using fade_in_step [OF ne ih(3)] by simp
  show ?case using t sg o by simp
qed


lemma fadeOut_closed_form:
  "int k \<le> durationOr30 dur \<Longrightarrow>
   fadingTimer ((update ^^ k) (startFadeOut dur s)) = durationOr30 dur - int k \<and>
   fadeSign ((update ^^ k) (startFadeOut dur s)) = - 1 \<and>
   fadeOpacity ((update ^^ k) (startFadeOut dur s)) * of_int (durationOr30 dur) = of_int (int k)"
proof (induction k)
  case 0
  then show ?case by (simp add: startFadeOut_def)
next
  case (Suc k)
  let ?t = "(update ^^ k) (startFadeOut dur s)"
  let ?D = "durationOr30 dur"
  from Suc have ih: "fadingTimer ?t = ?D - int k" "fadeSign ?t = - 1"
    "fadeOpacity ?t * of_int ?D = of_int (int k)" by simp_all
  from Suc.prems have pos: "0 < fadingTimer ?t" using ih(1) by simp
  have t: "fadingTimer (update ?t) = ?D - int (Suc k)"
    using pos ih(1) by (simp add: updateFading_timer)
  have sg: "fadeSign (update ?t) = - 1" using ih(2) by (simp add: updateFading_sign)
  have ne: "(of_int (?D - int k) :: rat) \<noteq> 0" using pos ih(1) by simp
  have e: "fadeOpacity ?t * of_int ?D = of_int ?D - of_int (?D - int k)"
    using ih(3) by simp
  have "fadeOpacity (update ?t) = fadeOpacity ?t + (1 - fadeOpacity ?t) / of_int (?D - int k)"
    using pos ih by (simp add: updateFading_opacity)
  then have o: "fadeOpacity (update ?t) * of_int ?D = of_int (int (Suc k))"
    using fade_out_step [OF ne e] by simp
  show ?case using t sg o by simp
qed

lemma idle_stays_idle:
  "fadingTimer s \<le> 0 \<Longrightarrow> fadingTimer ((update ^^ k) s) \<le> 0"
  by (induction k) (simp_all add: updateFading_idle)

lemma running_tick_bound:
  assumes run: "0 < fadingTimer ((update ^^ k) s0)"
    and t0: "fadingTimer s0 = D"
    and cf: "\<And>j. int j \<le> D \<Longrightarrow> fadingTimer ((update ^^ j) s0) = D - int j"
  shows "int k < D"
proof (rule ccontr)
  assume "\<not> int k < D"
  then have ge: "D \<le> int k" by simp
  show False
  proof (cases "0 \<le> D")
    case True
    then have "int (nat D) \<le> D" by simp
    from cf [OF this] True have z: "fadingTimer ((update ^^ nat D) s0) \<le> 0" by simp
    from ge True have "k = (k - nat D) + nat D" by simp
    then have eq: "(update ^^ k) s0 = (update ^^ (k - nat D)) ((update ^^ nat D) s0)"
      by (metis funpow_add o_apply)
    from idle_stays_idle [OF z, of "k - nat D"] run show False
      unfolding eq by simp
  next
    case False
    from t0 False have "fadingTimer s0 \<le> 0" by simp
    from idle_stays_idle [OF this, of k] run show False by simp
  qed
qed


lemma fadeIn_tick:
  fixes s :: "'a scene_base_scheme" and k :: nat and dur :: "int option"
  defines "sk \<equiv> (update ^^ k) (startFadeIn dur s)"
  assumes run: "0 < fadingTimer sk"
  shows "0 \<le> fadeOpacity (update sk)" "fadeOpacity (update sk) < fadeOpacity sk"
    "fadingTimer (update sk) = fadingTimer sk - 1"
    "fadingTimer (update sk) \<le> 0 \<Longrightarrow>
       fadeOpacity (update sk) = 0 \<and> fadingFlag (update sk) = 0 \<and> fadingTimer (update sk) = 0"
proof -
  let ?D = "durationOr30 dur"
  have t0: "fadingTimer (startFadeIn dur s) = ?D" by (simp add: startFadeIn_def)
  have lt: "int k < ?D"
    using run fadeIn_closed_form [of _ dur s] t0 unfolding sk_def
    by (intro running_tick_bound [where ?s0.0 = "startFadeIn dur s"]) auto
  then have Dpos: "(0::rat) < of_int ?D" by simp
  from lt fadeIn_closed_form [of k dur s]
  have a: "fadingTimer sk = ?D - int k" "fadeOpacity sk * of_int ?D = of_int (?D - int k)"
    by (simp_all add: sk_def)
  from lt fadeIn_closed_form [of "Suc k" dur s]
  have b: "fadingTimer (update sk) = ?D - int (Suc k)"
    "fadeOpacity (update sk) * of_int ?D = of_int (?D - int (Suc k))"
    by (simp_all add: sk_def)
  show t: "fadingTimer (update sk) = fadingTimer sk - 1" using a(1) b(1) by simp
  have "0 \<le> fadeOpacity (update sk) * of_int ?D" using b(2) lt by simp
  then show "0 \<le> fadeOpacity (update sk)" using Dpos by (simp add: zero_le_mult_iff)
  have "fadeOpacity (update sk) * of_int ?D < fadeOpacity sk * of_int ?D"
    using a(2) b(2) by simp
  then show "fadeOpacity (update sk) < fadeOpacity sk" using Dpos by simp
  show "fadeOpacity (update sk) = 0 \<and> fadingFlag (update sk) = 0 \<and> fadingTimer (update sk) = 0"
    if z: "fadingTimer (update sk) \<le> 0"
  proof -
    from z t run have z0: "fadingTimer (update sk) = 0" by simp
    with b have "fadeOpacity (update sk) * of_int ?D = 0" by simp
    with Dpos have "fadeOpacity (update sk) = 0" by simp
    moreover have "fadingFlag (update sk) = 0"
      using updateFading_flag [OF run] z0 by simp
    ultimately show ?thesis using z0 by simp
  qed
qed


lemma fadeOut_tick:
  fixes s :: "'a scene_base_scheme" and k :: nat and dur :: "int option"
  defines "sk \<equiv> (update ^^ k) (startFadeOut dur s)"
  assumes run: "0 < fadingTimer sk"
  shows "fadeOpacity (update sk) \<le> 1" "fadeOpacity sk < fadeOpacity (update sk)"
    "fadingTimer (update sk) = fadingTimer sk - 1"
    "fadingTimer (update sk) \<le> 0 \<Longrightarrow>
       fadeOpacity (update sk) = 1 \<and> fadingFlag (update sk) = 0 \<and> fadingTimer (update sk) = 0"
proof -
  let ?D = "durationOr30 dur"
  have t0: "fadingTimer (startFadeOut dur s) = ?D" by (simp add: startFadeOut_def)
  have lt: "int k < ?D"
    using run fadeOut_closed_form [of _ dur s] t0 unfolding sk_def
    by (intro running_tick_bound [where ?s0.0 = "startFadeOut dur s"]) auto
  then have Dpos: "(0::rat) < of_int ?D" by simp
  from lt fadeOut_closed_form [of k dur s]
  have a: "fadingTimer sk = ?D - int k" "fadeOpacity sk * of_int ?D = of_int (int k)"
    by (simp_all add: sk_def)
  from lt fadeOut_closed_form [of "Suc k" dur s]
  have b: "fadingTimer (update sk) = ?D - int (Suc k)"
    "fadeOpacity (update sk) * of_int ?D = of_int (int (Suc k))"
    by (simp_all add: sk_def)
  show t: "fadingTimer (update sk) = fadingTimer sk - 1" using a(1) b(1) by simp
  have "fadeOpacity (update sk) * of_int ?D \<le> 1 * of_int ?D" using b(2) lt by simp
  then show "fadeOpacity (update sk) \<le> 1" using Dpos by (simp only: mult_le_cancel_right_pos)
  have "fadeOpacity sk * of_int ?D < fadeOpacity (update sk) * of_int ?D"
    using a(2) b(2) by simp
  then show "fadeOpacity sk < fadeOpacity (update sk)" using Dpos by simp
  show "fadeOpacity (update sk) = 1 \<and> fadingFlag (update sk) = 0 \<and> fadingTimer (update sk) = 0"
    if z: "fadingTimer (update sk) \<le> 0"
  proof -
    from z t run have z0: "fadingTimer (update sk) = 0" by simp
    with b have "fadeOpacity (update sk) * of_int ?D = 1 * of_int ?D" by simp
    with Dpos have "fadeOpacity (update sk) = 1" by (simp only: mult_cancel_right) simp
    moreover have "fadingFlag (update sk) = 0"
      using updateFading_flag [OF run] z0 by simp
    ultimately show ?thesis using z0 by simp
  qed
qed

lemma fadeIn_finishes:
  fixes s :: "'a scene_base_scheme"
  assumes "0 < durationOr30 dur"
  shows "fadingTimer ((update ^^ nat (durationOr30 dur)) (startFadeIn dur s)) = 0
       \<and> fadeOpacity ((update ^^ nat (durationOr30 dur)) (startFadeIn dur s)) = 0"
  using assms fadeIn_closed_form [of "nat (durationOr30 dur)" dur s] by simp

lemma fadeOut_finishes:
  fixes s :: "'a scene_base_scheme"
  assumes "0 < durationOr30 dur"
  shows "fadingTimer ((update ^^ nat (durationOr30 dur)) (startFadeOut dur s)) = 0
       \<and> fadeOpacity ((update ^^ nat (durationOr30 dur)) (startFadeOut dur s)) = 1"
  using assms fadeOut_closed_form [of "nat (durationOr30 dur)" dur s] by simp

text \<open>
  Claim C1. A fade started by \<open>startFadeIn\<close> or \<open>startFadeOut\<close> and driven by \<open>update\<close>
  ticks alone: on every tick taken while the timer is positive the fading sprite's
  opacity moves toward its target (down toward 0 after \<open>startFadeIn\<close>, up toward 1 after
  \<open>startFadeOut\<close>) without passing it, and the timer drops by one; on the tick that
  brings the timer to 0 the opacity is exactly the target and \<open>onFadeComplete\<close> has
  cleared the fade flag and the timer. A fade over a positive number of frames reaches
  that tick after exactly that many updates. Durations are whole numbers of frames.
\<close>

theorem fade_monotone_and_exact:
  fixes s :: "'a scene_base_scheme"
  shows
  "(let sk = (update ^^ k) (startFadeIn dur s); sk' = update sk in
      (0 < fadingTimer sk \<longrightarrow>
         0 \<le> fadeOpacity sk' \<and> fadeOpacity sk' < fadeOpacity sk
         \<and> fadingTimer sk' = fadingTimer sk - 1) \<and>
      (0 < fadingTimer sk \<and> fadingTimer sk' \<le> 0 \<longrightarrow>
         fadeOpacity sk' = 0 \<and> fadingFlag sk' = 0 \<and> fadingTimer sk' = 0)) \<and>
   (let sk = (update ^^ k) (startFadeOut dur s); sk' = update sk in
      (0 < fadingTimer sk \<longrightarrow>
         fadeOpacity sk' \<le> 1 \<and> fadeOpacity sk < fadeOpacity sk'
         \<and> fadingTimer sk' = fadingTimer sk - 1) \<and>
      (0 < fadingTimer sk \<and> fadingTimer sk' \<le> 0 \<longrightarrow>
         fadeOpacity sk' = 1 \<and> fadingFlag sk' = 0 \<and> fadingTimer sk' = 0)) \<and>
   (0 < durationOr30 dur \<longrightarrow>
      (let n = nat (durationOr30 dur) in
         fadingTimer ((update ^^ n) (startFadeIn dur s)) = 0
         \<and> fadeOpacity ((update ^^ n) (startFadeIn dur s)) = 0
         \<and> fadingTimer ((update ^^ n) (startFadeOut dur s)) = 0
         \<and> fadeOpacity ((update ^^ n) (startFadeOut dur s)) = 1))"
  unfolding Let_def
  using fadeIn_tick [of k dur s] fadeOut_tick [of k dur s]
    fadeIn_finishes [of dur s] fadeOut_finishes [of dur s]
  by blast

theorem fade_monotone_and_exact_witness:
  "0 < fadingTimer (update (startFadeIn (Some 2) emptyScene))
   \<and> fadeOpacity (update (startFadeIn (Some 2) emptyScene)) = 1 / 2
   \<and> fadingTimer (update (update (startFadeIn (Some 2) emptyScene))) = 0
   \<and> fadeOpacity (update (update (startFadeIn (Some 2) emptyScene))) = 0
   \<and> fadingFlag (update (update (startFadeIn (Some 2) emptyScene))) = 0
   \<and> 0 < fadingTimer (update (startFadeOut (Some 2) emptyScene))
   \<and> fadeOpacity (update (startFadeOut (Some 2) emptyScene)) = 1 / 2
   \<and> fadingTimer (update (update (startFadeOut (Some 2) emptyScene))) = 0
   \<and> fadeOpacity (update (update (startFadeOut (Some 2) emptyScene))) = 1
   \<and> 0 < durationOr30 (Some 2)"
  using fade_monotone_and_exact [of "Suc 0" "Some 2" emptyScene]
  by (simp add: Let_def updateFading_def onFadeComplete_def startFadeIn_def startFadeOut_def
      durationOr30_def emptyScene_def Scene_Base_new_def)


section \<open>Teardown of the owned windows\<close>

text \<open>
  Claim C3. \<open>terminate\<close> is claimed to dispose every owned window. On a scene that owns
  the two windows \<open>0\<close> and \<open>1\<close> it returns with an empty window list, window \<open>0\<close>
  disposed and window \<open>1\<close> never cleared: \<open>disposeWindowAt\<close> splices the list under the
  loop of \<open>disposeAllWindows\<close>, whose index then skips every other window.
\<close>

theorem terminate_skips_second_window:
  "windows twoWindowScene = [0, 1]
   \<and> (case terminate twoWindowScene of
         Inl err \<Rightarrow> False
       | Inr s' \<Rightarrow> windows s' = [] \<and> w_disposed (heap s' 0) \<and> \<not> w_disposed (heap s' 1))"
  by (simp add: terminate_def disposeAllWindows_def disposeWindowAt_def onHeap_def
      clearDispose_def twoWindowScene_def addWindow_def addChild_def start_def emptyScene_def
      Scene_Base_new_def isActive_def isDisposed_def plainWidget_def)



text \<open>
  The same for every scene that owns at least two windows: the loop always returns, the
  first window is disposed, and the second one, if it is not in the list twice and was
  not disposed before, is not disposed by \<open>terminate\<close>.
\<close>

lemma loop_untouched:
  "disposeAllWindows_loop i s = Inr s' \<Longrightarrow> w \<notin> set (drop i (windows s)) \<Longrightarrow> heap s' w = heap s w"
proof (induction i s rule: disposeAllWindows_loop.induct)
  case (1 i s)
  show ?case
  proof (cases "i < length (windows s)")
    case False
    with "1.prems" show ?thesis by simp
  next
    case True
    define s1 where "s1 = s\<lparr> heap := onHeap (windows s ! i) clearDispose (heap s),
                   windows := take i (windows s) @ drop (Suc i) (windows s) \<rparr>"
    have d: "disposeWindowAt (int i) s = Inr s1"
      using True by (simp add: disposeWindowAt_def s1_def)
    from True have "windows s ! i \<in> set (drop i (windows s))"
      by (metis Cons_nth_drop_Suc list.set_intros(1))
    with "1.prems"(2) have ne: "w \<noteq> windows s ! i" by auto
    have "drop (Suc i) (windows s1) = drop (Suc (Suc i)) (windows s)"
      using True by (simp add: s1_def min_def)
    moreover have "set (drop (Suc (Suc i)) (windows s)) \<subseteq> set (drop i (windows s))"
      by (metis drop_drop set_drop_subset add_2_eq_Suc)
    ultimately have notin: "w \<notin> set (drop (Suc i) (windows s1))"
      using "1.prems"(2) by auto
    from "1.prems"(1) True d have "disposeAllWindows_loop (Suc i) s1 = Inr s'"
      by (simp del: disposeAllWindows_loop.simps add: disposeAllWindows_loop.simps [of i s])
    from "1.IH" [OF True d this notin] have "heap s' w = heap s1 w" .
    also have "\<dots> = heap s w" using ne by (simp add: s1_def onHeap_def)
    finally show ?thesis .
  qed
qed

lemma loop_returns:
  "\<exists>s'. disposeAllWindows_loop i s = Inr s'"
proof (induction i s rule: disposeAllWindows_loop.induct)
  case (1 i s)
  show ?case
  proof (cases "i < length (windows s)")
    case False
    then show ?thesis by simp
  next
    case True
    define s1 where "s1 = s\<lparr> heap := onHeap (windows s ! i) clearDispose (heap s),
                   windows := take i (windows s) @ drop (Suc i) (windows s) \<rparr>"
    have d: "disposeWindowAt (int i) s = Inr s1"
      using True by (simp add: disposeWindowAt_def s1_def)
    from "1.IH" [OF True d] obtain s' where "disposeAllWindows_loop (Suc i) s1 = Inr s'" by blast
    with True d show ?thesis
      by (simp del: disposeAllWindows_loop.simps add: disposeAllWindows_loop.simps [of i s])
  qed
qed

lemma loop_keeps_disposed:
  "disposeAllWindows_loop i s = Inr s' \<Longrightarrow> w_disposed (heap s w) \<Longrightarrow> w_disposed (heap s' w)"
proof (induction i s rule: disposeAllWindows_loop.induct)
  case (1 i s)
  show ?case
  proof (cases "i < length (windows s)")
    case False
    with "1.prems" show ?thesis by simp
  next
    case True
    define s1 where "s1 = s\<lparr> heap := onHeap (windows s ! i) clearDispose (heap s),
               windows := take i (windows s) @ drop (Suc i) (windows s) \<rparr>"
    have d: "disposeWindowAt (int i) s = Inr s1"
      using True by (simp add: disposeWindowAt_def s1_def)
    from "1.prems"(1) True d have r: "disposeAllWindows_loop (Suc i) s1 = Inr s'"
      by (simp del: disposeAllWindows_loop.simps add: disposeAllWindows_loop.simps [of i s])
    have "w_disposed (heap s1 w)"
      using "1.prems"(2) by (simp add: s1_def onHeap_def clearDispose_def)
    from "1.IH" [OF True d r this] show ?thesis .
  qed
qed

lemma terminate_never_disposes_second_window:
  assumes ws: "windows s = w0 # w1 # rest" and d: "w1 \<noteq> w0" "w1 \<notin> set rest"
    and fresh: "\<not> w_disposed (heap s w1)"
  shows "\<exists>s'. terminate s = Inr s' \<and> windows s' = [] \<and> w_disposed (heap s' w0)
           \<and> \<not> w_disposed (heap s' w1)"
proof -
  define s1 where "s1 = s\<lparr> heap := onHeap w0 clearDispose (heap s), windows := w1 # rest \<rparr>"
  have d0: "disposeWindowAt 0 s = Inr s1"
    using ws by (simp add: disposeWindowAt_def s1_def)
  obtain s2 where s2: "disposeAllWindows_loop (Suc 0) s1 = Inr s2"
    using loop_returns by blast
  have l0: "disposeAllWindows_loop 0 s = Inr s2"
    using ws d0 s2
    by (simp del: disposeAllWindows_loop.simps add: disposeAllWindows_loop.simps [of 0 s])
  have "w1 \<notin> set (drop (Suc 0) (windows s1))" using d(2) by (simp add: s1_def)
  from loop_untouched [OF s2 this] have h1: "heap s2 w1 = heap s1 w1" .
  have h1': "heap s1 w1 = heap s w1" using d(1) by (simp add: s1_def onHeap_def)
  have "w_disposed (heap s1 w0)" by (simp add: s1_def onHeap_def clearDispose_def)
  from loop_keeps_disposed [OF s2 this] have h0: "w_disposed (heap s2 w0)" .
  show ?thesis
    using l0 h0 h1 h1' fresh
    by (simp add: terminate_def disposeAllWindows_def)
qed


section \<open>Input cooldown\<close>

lemma fold_updateChild_cooldown:
  "buttonCooldown (fold updateChild cs s) = buttonCooldown s"
  by (induction cs arbitrary: s) (simp_all add: updateChild_def)

lemma update_cooldown: "buttonCooldown (update s) = buttonCooldown s"
  by (simp add: update_def updateChildren_def fold_updateChild_cooldown updateFading_def
      onFadeComplete_def Let_def)

lemma updates_cooldown: "buttonCooldown ((update ^^ n) s) = buttonCooldown s"
  by (induction n) (simp_all add: update_cooldown)

lemma updateSplashStage_cooldown:
  "buttonCooldown (updateSplashStage s) = buttonCooldown s"
  by (simp add: updateSplashStage_def startFadeOut_def startFadeIn_def startSplashEffect_def)

lemma updateSkip_cooldown:
  "buttonCooldown (updateSkip c k s) = (if c then (buttonCooldown s)(k \<mapsto> 4) else buttonCooldown s)"
  by (simp add: updateSkip_def heatupButton_def Let_def)

lemma Scene_Intro_update_cooldown:
  "buttonCooldown (Scene_Intro_update c k s)
     = (if c then (buttonCooldown s)(k \<mapsto> 4) else buttonCooldown s)"
  unfolding Scene_Intro_update_def Let_def
  by (cases c) (simp_all add: updateSkip_cooldown updateSplashStage_cooldown update_cooldown)

lemma idle_frames_cooldown:
  "buttonCooldown ((Scene_Intro_update False k ^^ n) s) = buttonCooldown s"
  by (induction n) (simp_all add: Scene_Intro_update_cooldown)

text \<open>
  Claim C6. After \<open>heatupButton(k)\<close> the counter of key \<open>k\<close> is 4 and
  \<open>isButtonCooled(k)\<close> is false, as claimed; but no frame update of a scene other than
  \<open>Scene_Load\<close> lowers the counter. \<open>Scene_Base.update\<close>, run any number of times,
  leaves it at 4. In the intro scene, the one scene that heats a button, a click on one
  frame (\<open>updateSkip\<close> calls \<open>heatupButton\<close>) followed by any number of frames without a
  click leaves the counter at 4 and the key hot: \<open>updateButtonCooldown\<close> is a method of
  \<open>Scene_Load\<close> and is called from \<open>Scene_Load.update\<close> only.
\<close>

theorem heated_button_never_cools:
  fixes s :: "'a scene_base_scheme" and t :: scene_intro
  shows "buttonCooldown ((update ^^ n) (heatupButton k s)) k = Some 4
       \<and> \<not> isButtonCooled k ((update ^^ n) (heatupButton k s))
       \<and> buttonCooldown (Scene_Intro_frames k (True # replicate n False) t) k = Some 4
       \<and> \<not> isButtonCooled k (Scene_Intro_frames k (True # replicate n False) t)"
  by (simp add: updates_cooldown isButtonCooled_def heatupButton_def orZero_def
      Scene_Intro_frames_def idle_frames_cooldown Scene_Intro_update_cooldown)

text \<open>
  What the sibling path does: \<open>Scene_Load.update\<close> lowers every positive counter of the
  keys below \<open>0xff\<close> by exactly one per frame.
\<close>

lemma fold_cooldownStep:
  "fold cooldownStep [0 ..< n] cd = (\<lambda>k. if k < n then cooldownStep k cd k else cd k)"
proof (induction n)
  case 0
  then show ?case by simp
next
  case (Suc n)
  show ?case
    unfolding upt_Suc_append [OF le0] fold_append o_apply Suc
    by (rule ext) (auto simp: cooldownStep_def less_Suc_eq)
qed

lemma updateButtonCooldown_key:
  "buttonCooldown (updateButtonCooldown s) k =
     (if k < 255 \<and> orZero (buttonCooldown s k) > 0 then Some (orZero (buttonCooldown s k) - 1)
      else buttonCooldown s k)"
  by (simp add: updateButtonCooldown_def fold_cooldownStep cooldownStep_def)

lemma Scene_Load_update_cooldown:
  "buttonCooldown (Scene_Load_update gr sr s) k =
     (if k < 255 \<and> orZero (buttonCooldown s k) > 0 then Some (orZero (buttonCooldown s k) - 1)
      else buttonCooldown s k)"
proof -
  have "buttonCooldown (updateLoading gr sr (update s)) = buttonCooldown s"
    by (simp add: updateLoading_def processLoadingComplete_def update_cooldown Let_def)
  then show ?thesis
    by (simp add: Scene_Load_update_def updateButtonCooldown_key)
qed


section \<open>Adding a window\<close>

lemma consoleError_frame:
  "windows (consoleError msg s) = windows s"
  "children (consoleError msg s) = children s"
  "errorLog (consoleError msg s) = errorLog s @ [msg]"
  by (simp_all add: consoleError_def)

lemma addWindow_refused:
  "(\<not> isActive s \<and> \<not> forced) \<or> isDisposed (heap s win) \<Longrightarrow>
   \<exists>msg. addWindow win forced s = consoleError msg s"
proof (cases "\<not> isActive s \<and> \<not> forced")
  case True
  then have "addWindow win forced s = consoleError ''Trying to add window to stopped scene'' s"
    by (simp add: addWindow_def)
  then show ?thesis by (rule exI)
next
  case False
  moreover assume "(\<not> isActive s \<and> \<not> forced) \<or> isDisposed (heap s win)"
  ultimately have "isDisposed (heap s win)" by blast
  with False have "addWindow win forced s = consoleError ''Try to add disposed window'' s"
    by (auto simp: addWindow_def)
  then show ?thesis by (rule exI)
qed

text \<open>
  Claim C8. \<open>addWindow(win, forced)\<close> on a scene that is not active with \<open>forced\<close>
  false, or with a disposed \<open>win\<close>, returns the scene with one more logged error and
  nothing else changed: the owned-window list and the children are as before. In every
  other case \<open>win\<close> is appended to the owned-window list and to the children, and nothing
  is logged. The operation always returns; it has no throwing path.
\<close>

theorem addWindow_contract:
  fixes s :: "'a scene_base_scheme"
  shows
  "((\<not> isActive s \<and> \<not> forced) \<or> isDisposed (heap s win) \<longrightarrow>
      (\<exists>msg. addWindow win forced s = consoleError msg s)
      \<and> windows (addWindow win forced s) = windows s
      \<and> children (addWindow win forced s) = children s
      \<and> length (errorLog (addWindow win forced s)) = length (errorLog s) + 1)
   \<and> (\<not> ((\<not> isActive s \<and> \<not> forced) \<or> isDisposed (heap s win)) \<longrightarrow>
      windows (addWindow win forced s) = windows s @ [win]
      \<and> children (addWindow win forced s) = children s @ [win]
      \<and> errorLog (addWindow win forced s) = errorLog s)"
proof (intro conjI impI)
  assume "(\<not> isActive s \<and> \<not> forced) \<or> isDisposed (heap s win)"
  then obtain msg where eq: "addWindow win forced s = consoleError msg s"
    using addWindow_refused by blast
  show "\<exists>msg. addWindow win forced s = consoleError msg s"
    using eq by (rule exI)
  show "windows (addWindow win forced s) = windows s"
    unfolding eq by (rule consoleError_frame)
  show "children (addWindow win forced s) = children s"
    unfolding eq by (rule consoleError_frame)
  show "length (errorLog (addWindow win forced s)) = length (errorLog s) + 1"
    unfolding eq by (simp add: consoleError_frame)
next
  assume "\<not> ((\<not> isActive s \<and> \<not> forced) \<or> isDisposed (heap s win))"
  then have "\<not> (\<not> isActive s \<and> \<not> forced)" "\<not> isDisposed (heap s win)" by blast+
  then have ok: "addWindow win forced s = addChild win (s\<lparr> windows := windows s @ [win] \<rparr>)"
    by (auto simp: addWindow_def)
  show "windows (addWindow win forced s) = windows s @ [win]"
    unfolding ok by (simp add: addChild_def)
  show "children (addWindow win forced s) = children s @ [win]"
    unfolding ok by (simp add: addChild_def)
  show "errorLog (addWindow win forced s) = errorLog s"
    unfolding ok by (simp add: addChild_def)
qed

theorem addWindow_contract_witness:
  "\<not> isActive emptyScene
   \<and> windows (addWindow 0 False emptyScene) = [] \<and> children (addWindow 0 False emptyScene) = []
   \<and> length (errorLog (addWindow 0 False emptyScene)) = 1
   \<and> isActive (start emptyScene) \<and> \<not> isDisposed (heap (start emptyScene) 0)
   \<and> windows (addWindow 0 False (start emptyScene)) = [0]
   \<and> children (addWindow 0 False (start emptyScene)) = [0]
   \<and> errorLog (addWindow 0 False (start emptyScene)) = []"
proof -
  have a: "\<not> isActive emptyScene" "windows emptyScene = []" "children emptyScene = []"
    "errorLog emptyScene = []"
    by (simp_all add: isActive_def emptyScene_def Scene_Base_new_def)
  have b: "isActive (start emptyScene)" "\<not> isDisposed (heap (start emptyScene) 0)"
    "windows (start emptyScene) = []" "children (start emptyScene) = []"
    "errorLog (start emptyScene) = []"
    by (simp_all add: isActive_def isDisposed_def start_def emptyScene_def Scene_Base_new_def
        plainWidget_def)
  show ?thesis
    using addWindow_contract [of emptyScene False 0]
      addWindow_contract [of "start emptyScene" False 0] a b
    by simp
qed

section \<open>Overlay round trip\<close>

text \<open>
  Claim C7. Raising and closing an overlay is claimed to leave every sibling's active
  state as it was before the raise. In \<open>hudScene\<close> after \<open>pause\<close> no overlay is up and the
  always-active child \<open>0\<close> is inactive, with \<open>lastActiveState\<close> set by \<open>pause\<close>.
  \<open>raiseOverlay\<close> skips the child because it is always-active; \<open>closeOverlay\<close>, which
  has no such test, activates it.
\<close>

theorem closeOverlay_activates_paused_always_active_child:
  "overlay (pause hudScene) = None
   \<and> w_alwaysActive (heap (pause hudScene) 0)
   \<and> \<not> w_active (heap (pause hudScene) 0)
   \<and> w_active (heap (closeOverlay (raiseOverlay (Some 1) (pause hudScene))) 0)"
  by (simp add: pause_def pauseChild_def raiseOverlay_def raiseChild_def closeOverlay_def
      closeChild_def onHeap_def activate_def deactivate_def showWidget_def hideWidget_def
      setZ_def hudScene_def Scene_Base_new_def plainWidget_def Let_def)


text \<open>
  What does hold: a sibling that is not always-active, or whose \<open>lastActiveState\<close> is
  not set, has the active state and the z-order after the round trip that it had before
  (the children being distinct objects); and \<open>raiseOverlay\<close> without a widget and
  \<open>closeOverlay\<close> without an overlay change nothing.
\<close>

lemma fold_raiseChild:
  "distinct cs \<Longrightarrow>
   fold (raiseChild ovs) cs h c =
     (if c \<in> set cs \<and> c \<noteq> ovs \<and> \<not> w_alwaysActive (h c)
      then (h c)\<lparr> w_lastActiveState := w_active (h c), w_active := False \<rparr>
      else h c)"
proof (induction cs arbitrary: h)
  case Nil
  then show ?case by simp
next
  case (Cons x cs)
  have other: "raiseChild ovs x h c = h c" if "c \<noteq> x"
    using that by (simp add: raiseChild_def onHeap_def)
  have self: "raiseChild ovs x h x =
      (if x \<noteq> ovs \<and> \<not> w_alwaysActive (h x)
       then (h x)\<lparr> w_lastActiveState := w_active (h x), w_active := False \<rparr> else h x)"
    by (simp add: raiseChild_def onHeap_def deactivate_def)
  from Cons.prems have d: "distinct cs" "x \<notin> set cs" by simp_all
  show ?case
  proof (cases "c = x")
    case True
    with d Cons.IH [OF d(1), of "raiseChild ovs x h"] self show ?thesis by simp
  next
    case False
    with Cons.IH [OF d(1), of "raiseChild ovs x h"] other show ?thesis by simp
  qed
qed

lemma fold_closeChild:
  "distinct cs \<Longrightarrow>
   fold (closeChild ov) cs h c =
     (if c \<in> set cs \<and> c \<noteq> ov \<and> w_lastActiveState (h c) then (h c)\<lparr> w_active := True \<rparr> else h c)"
proof (induction cs arbitrary: h)
  case Nil
  then show ?case by simp
next
  case (Cons x cs)
  have other: "closeChild ov x h c = h c" if "c \<noteq> x"
    using that by (simp add: closeChild_def onHeap_def)
  have self: "closeChild ov x h x =
      (if x \<noteq> ov \<and> w_lastActiveState (h x) then (h x)\<lparr> w_active := True \<rparr> else h x)"
    by (simp add: closeChild_def onHeap_def activate_def)
  from Cons.prems have d: "distinct cs" "x \<notin> set cs" by simp_all
  show ?case
  proof (cases "c = x")
    case True
    with d Cons.IH [OF d(1), of "closeChild ov x h"] self show ?thesis by simp
  next
    case False
    with Cons.IH [OF d(1), of "closeChild ov x h"] other show ?thesis by simp
  qed
qed

lemma raiseOverlay_sibling:
  assumes "distinct (children s)" "c \<noteq> ovs"
  shows "heap (raiseOverlay (Some ovs) s) c =
     (if c \<in> set (children s) \<and> \<not> w_alwaysActive (heap s c)
      then (heap s c)\<lparr> w_lastActiveState := w_active (heap s c), w_active := False \<rparr>
      else heap s c)"
  using assms
  by (simp add: raiseOverlay_def Let_def onHeap_def fold_raiseChild)

lemma closeOverlay_sibling:
  assumes "distinct (children s)" "overlay s = Some ov" "c \<noteq> ov"
  shows "heap (closeOverlay s) c =
     (if c \<in> set (children s) \<and> w_lastActiveState (heap s c)
      then (heap s c)\<lparr> w_active := True \<rparr> else heap s c)"
  using assms
  by (simp add: closeOverlay_def Let_def onHeap_def fold_closeChild)

lemma raiseOverlay_fields:
  "overlay (raiseOverlay (Some ovs) s) = Some ovs"
  "children (raiseOverlay (Some ovs) s) = children s"
  by (simp_all add: raiseOverlay_def Let_def)

lemma overlay_round_trip_ordinary_sibling:
  assumes "distinct (children s)" "c \<in> set (children s)" "c \<noteq> ovs"
    and "\<not> w_alwaysActive (heap s c) \<or> \<not> w_lastActiveState (heap s c)"
  shows "w_active (heap (closeOverlay (raiseOverlay (Some ovs) s)) c) = w_active (heap s c)"
    and "w_z (heap (closeOverlay (raiseOverlay (Some ovs) s)) c) = w_z (heap s c)"
proof -
  let ?r = "raiseOverlay (Some ovs) s"
  have r: "heap ?r c =
     (if \<not> w_alwaysActive (heap s c)
      then (heap s c)\<lparr> w_lastActiveState := w_active (heap s c), w_active := False \<rparr>
      else heap s c)"
    using raiseOverlay_sibling [OF assms(1,3)] assms(2) by simp
  have dr: "distinct (children ?r)" using assms(1) by (simp add: raiseOverlay_fields)
  have c: "heap (closeOverlay ?r) c =
     (if w_lastActiveState (heap ?r c) then (heap ?r c)\<lparr> w_active := True \<rparr> else heap ?r c)"
    using closeOverlay_sibling [OF dr raiseOverlay_fields(1) assms(3)] assms(2)
    by (simp add: raiseOverlay_fields)
  show "w_active (heap (closeOverlay ?r) c) = w_active (heap s c)"
    unfolding c r using assms(4) by auto
  show "w_z (heap (closeOverlay ?r) c) = w_z (heap s c)"
    unfolding c r by simp
qed

lemma overlay_no_ops:
  "raiseOverlay None s = s" "overlay s = None \<Longrightarrow> closeOverlay s = s"
  by (simp_all add: raiseOverlay_def closeOverlay_def)


section \<open>Release of a sprite\<close>




section \<open>Busy predicate and the animation counter\<close>

lemma addDiscardCard_count:
  assumes "cardSprite s (c_id crd) = Some a" "pid \<ge> 0 \<longrightarrow> playerNumber e \<noteq> 0"
  shows "\<exists>s1. addDiscardCard e crd pid rnd s = Done () s1
          \<and> animationCount s1 = animationCount s + 1
          \<and> (\<exists>x y. sp_moving (sprites s1 a) = Some (x, y, DiscardArrived crd))
          \<and> cardSprite s1 = cardSprite s
          \<and> fadingTimer s1 = fadingTimer s \<and> playerPhase s1 = playerPhase s"
  using assms
  by (auto simp: addDiscardCard_def andThen_def onSprite_def moveto_def Let_def)


lemma arrive_discard_count:
  assumes "sp_moving (sprites s1 a) = Some (x, y, DiscardArrived crd)"
    "cardSprite s1 (c_id crd) = Some a"
  shows "\<exists>s2. arrive e a s1 = Done () s2
          \<and> animationCount s2 = animationCount s1 - 1
          \<and> sp_moving (sprites s2 a) = None
          \<and> fadingTimer s2 = fadingTimer s1 \<and> playerPhase s2 = playerPhase s1"
  using assms
  by (simp add: arrive_def runCallback_def onSprite_def setPOS_def Let_def)

lemma onCardPlay_from_hand:
  assumes cs: "cardSprite s (c_id crd) = Some a" and hc: "arrayGet (handCanvas s) pid = Some hc"
    and pn: "playerNumber e \<noteq> 0"
  shows "\<exists>s1. onCardPlay e pid crd rnd s = Done () s1
          \<and> animationCount s1 = animationCount s + 1
          \<and> playerIndex (sprites s1 a) = - 1
          \<and> (\<exists>x y. sp_moving (sprites s1 a) = Some (x, y, DiscardArrived crd))
          \<and> cardSprite s1 = cardSprite s
          \<and> fadingTimer s1 = fadingTimer s \<and> playerPhase s1 = playerPhase s"
proof -
  from hc have pid: "0 \<le> pid" "pid \<noteq> - 1" by (auto simp: arrayGet_def split: if_splits)
  define pos where "pos = getGlobalPosition s (sprites s a)"
  define s4 where "s4 = onSprite a (setPOS (fst pos) (snd pos))
                          (onSprite a (removeChildOf (InHand (nat pid))) s)"
  define s6 where "s6 = onSprite a (\<lambda>sp. sp\<lparr> playerIndex := - 1 \<rparr>)
                          (onSprite a (\<lambda>sp. (setSpriteZ 0x20 sp)\<lparr> handIndex := - 1 \<rparr>) s4)"
  have s6: "cardSprite s6 = cardSprite s" "animationCount s6 = animationCount s"
    "fadingTimer s6 = fadingTimer s" "playerPhase s6 = playerPhase s"
    by (simp_all add: s6_def s4_def onSprite_def)
  have u: "onCardPlay e pid crd rnd s = addDiscardCard e crd pid rnd s6"
    using cs hc pid(2)
    by (simp add: onCardPlay_def andThen_def Let_def s6_def s4_def pos_def onSprite_def)
  from cs s6(1) have cs6: "cardSprite s6 (c_id crd) = Some a" by simp
  from pn have pn': "0 \<le> pid \<longrightarrow> playerNumber e \<noteq> 0" by simp
  from addDiscardCard_count [OF cs6 pn', of rnd] obtain s1 where
    s1: "addDiscardCard e crd pid rnd s6 = Done () s1"
      "animationCount s1 = animationCount s6 + 1"
      "\<exists>x y. sp_moving (sprites s1 a) = Some (x, y, DiscardArrived crd)"
      "cardSprite s1 = cardSprite s6"
      "fadingTimer s1 = fadingTimer s6" "playerPhase s1 = playerPhase s6"
    by blast
  have "playerIndex (sprites s6 a) = - 1" by (simp add: s6_def onSprite_def)
  moreover have "playerIndex (sprites s1 a) = playerIndex (sprites s6 a)"
    using s1(1) cs6 pid(1) pn
    by (auto simp: addDiscardCard_def andThen_def Let_def onSprite_def moveto_def
        rotateDegree_def showSprite_def)
  ultimately have pi: "playerIndex (sprites s1 a) = - 1" by simp
  show ?thesis
    unfolding u using s1 s6 pi by (intro exI [of _ s1]) simp
qed

lemma busy_iff:
  "Scene_Game_isBusy t \<longleftrightarrow> 0 < fadingTimer t \<or> animationCount t \<noteq> 0 \<or> playerPhase t"
  by (simp add: Scene_Game_isBusy_def isBusy_def isAnimationPlaying_def isPlayerThinking_def)

lemma discard_round_trip:
  assumes s1: "animationCount s1 = animationCount s + 1"
      "\<exists>x y. sp_moving (sprites s1 a) = Some (x, y, DiscardArrived crd)"
      "cardSprite s1 = cardSprite s"
      "fadingTimer s1 = fadingTimer s" "playerPhase s1 = playerPhase s"
    and cs: "cardSprite s (c_id crd) = Some a"
  shows "\<exists>s2. arrive e a s1 = Done () s2
           \<and> animationCount s1 = animationCount s + 1
           \<and> animationCount s2 = animationCount s
           \<and> (animationCount s = 0 \<and> fadingTimer s = 0 \<and> \<not> playerPhase s \<longrightarrow>
                \<not> Scene_Game_isBusy s \<and> animationCount s1 = 1 \<and> Scene_Game_isBusy s1
                \<and> animationCount s2 = 0 \<and> \<not> Scene_Game_isBusy s2)"
proof -
  from s1(2) obtain x y where m: "sp_moving (sprites s1 a) = Some (x, y, DiscardArrived crd)"
    by blast
  from s1(3) cs have cs1: "cardSprite s1 (c_id crd) = Some a" by simp
  from arrive_discard_count [OF m cs1, of e] obtain s2 where
    s2: "arrive e a s1 = Done () s2" "animationCount s2 = animationCount s1 - 1"
      "fadingTimer s2 = fadingTimer s1" "playerPhase s2 = playerPhase s1"
    by blast
  show ?thesis
    using s1(1,4,5) s2 by (intro exI [of _ s2]) (simp add: busy_iff)
qed

text \<open>
  Claim C2. \<open>Scene_Game.isBusy\<close> is true exactly when the fade timer is running
  (positive; for a timer that is not negative that is: nonzero), or the animation counter
  is nonzero, or the player is thinking. A discard animation, started by
  \<open>addDiscardCard\<close> directly or by \<open>onCardPlay\<close> for a card played from a hand, raises
  the counter by one, once, and the completion of that animation lowers it by one, once;
  from a quiescent scene the counter goes 0, 1, 0 and \<open>isBusy\<close> goes false, true,
  false. (The card must have a sprite and the game must have players; for \<open>onCardPlay\<close>
  the player must have a hand canvas. Otherwise the call fails before it counts.)
\<close>

theorem isBusy_follows_animation_counter:
  "(Scene_Game_isBusy s \<longleftrightarrow> 0 < fadingTimer s \<or> animationCount s \<noteq> 0 \<or> playerPhase s)
   \<and> (0 \<le> fadingTimer s \<longrightarrow>
        (Scene_Game_isBusy s \<longleftrightarrow> fadingTimer s \<noteq> 0 \<or> animationCount s \<noteq> 0 \<or> playerPhase s))
   \<and> (cardSprite s (c_id crd) = Some a \<and> (0 \<le> pid \<longrightarrow> playerNumber e \<noteq> 0) \<longrightarrow>
        (\<exists>s1 s2. addDiscardCard e crd pid rnd s = Done () s1 \<and> arrive e a s1 = Done () s2
           \<and> animationCount s1 = animationCount s + 1
           \<and> animationCount s2 = animationCount s
           \<and> (animationCount s = 0 \<and> fadingTimer s = 0 \<and> \<not> playerPhase s \<longrightarrow>
                \<not> Scene_Game_isBusy s \<and> animationCount s1 = 1 \<and> Scene_Game_isBusy s1
                \<and> animationCount s2 = 0 \<and> \<not> Scene_Game_isBusy s2)))
   \<and> (cardSprite s (c_id crd) = Some a \<and> arrayGet (handCanvas s) pid = Some hc
        \<and> playerNumber e \<noteq> 0 \<longrightarrow>
        (\<exists>s1 s2. onCardPlay e pid crd rnd s = Done () s1 \<and> arrive e a s1 = Done () s2
           \<and> animationCount s1 = animationCount s + 1
           \<and> animationCount s2 = animationCount s
           \<and> (animationCount s = 0 \<and> fadingTimer s = 0 \<and> \<not> playerPhase s \<longrightarrow>
                \<not> Scene_Game_isBusy s \<and> animationCount s1 = 1 \<and> Scene_Game_isBusy s1
                \<and> animationCount s2 = 0 \<and> \<not> Scene_Game_isBusy s2)))"
proof (intro conjI impI)
  show "Scene_Game_isBusy s \<longleftrightarrow> 0 < fadingTimer s \<or> animationCount s \<noteq> 0 \<or> playerPhase s"
    by (rule busy_iff)
  show "Scene_Game_isBusy s \<longleftrightarrow> fadingTimer s \<noteq> 0 \<or> animationCount s \<noteq> 0 \<or> playerPhase s"
    if "0 \<le> fadingTimer s"
    using that by (simp add: busy_iff less_le)
  show "\<exists>s1 s2. addDiscardCard e crd pid rnd s = Done () s1 \<and> arrive e a s1 = Done () s2
           \<and> animationCount s1 = animationCount s + 1
           \<and> animationCount s2 = animationCount s
           \<and> (animationCount s = 0 \<and> fadingTimer s = 0 \<and> \<not> playerPhase s \<longrightarrow>
                \<not> Scene_Game_isBusy s \<and> animationCount s1 = 1 \<and> Scene_Game_isBusy s1
                \<and> animationCount s2 = 0 \<and> \<not> Scene_Game_isBusy s2)"
    if h: "cardSprite s (c_id crd) = Some a \<and> (0 \<le> pid \<longrightarrow> playerNumber e \<noteq> 0)"
  proof -
    from addDiscardCard_count [OF conjunct1 [OF h] conjunct2 [OF h], of rnd] obtain s1 where
      s1: "addDiscardCard e crd pid rnd s = Done () s1"
        "animationCount s1 = animationCount s + 1"
        "\<exists>x y. sp_moving (sprites s1 a) = Some (x, y, DiscardArrived crd)"
        "cardSprite s1 = cardSprite s"
        "fadingTimer s1 = fadingTimer s" "playerPhase s1 = playerPhase s"
      by blast
    from discard_round_trip [OF s1(2-6) conjunct1 [OF h], of e] s1(1)
    show ?thesis by blast
  qed
  show "\<exists>s1 s2. onCardPlay e pid crd rnd s = Done () s1 \<and> arrive e a s1 = Done () s2
           \<and> animationCount s1 = animationCount s + 1
           \<and> animationCount s2 = animationCount s
           \<and> (animationCount s = 0 \<and> fadingTimer s = 0 \<and> \<not> playerPhase s \<longrightarrow>
                \<not> Scene_Game_isBusy s \<and> animationCount s1 = 1 \<and> Scene_Game_isBusy s1
                \<and> animationCount s2 = 0 \<and> \<not> Scene_Game_isBusy s2)"
    if h: "cardSprite s (c_id crd) = Some a \<and> arrayGet (handCanvas s) pid = Some hc
        \<and> playerNumber e \<noteq> 0"
  proof -
    from h have h': "cardSprite s (c_id crd) = Some a" "arrayGet (handCanvas s) pid = Some hc"
      "playerNumber e \<noteq> 0" by simp_all
    from onCardPlay_from_hand [OF h', of rnd] obtain s1 where
      s1: "onCardPlay e pid crd rnd s = Done () s1"
        "animationCount s1 = animationCount s + 1"
        "\<exists>x y. sp_moving (sprites s1 a) = Some (x, y, DiscardArrived crd)"
        "cardSprite s1 = cardSprite s"
        "fadingTimer s1 = fadingTimer s" "playerPhase s1 = playerPhase s"
      by blast
    from discard_round_trip [OF s1(2-6) h'(1), of e] s1(1)
    show ?thesis by blast
  qed
qed

theorem isBusy_follows_animation_counter_witness:
  "0 \<le> fadingTimer exampleGame
   \<and> cardSprite exampleGame (c_id exampleCard) = Some 0
   \<and> arrayGet (handCanvas exampleGame) 0
       = Some \<lparr> cv_x = 0, cv_y = 500, cv_width = 350, cv_height = 225 \<rparr>
   \<and> playerNumber exampleEnv \<noteq> 0
   \<and> animationCount exampleGame = 0 \<and> fadingTimer exampleGame = 0 \<and> \<not> playerPhase exampleGame
   \<and> \<not> Scene_Game_isBusy exampleGame
   \<and> animationCount (stateOf (addDiscardCard exampleEnv exampleCard 0 17 exampleGame)) = 1
   \<and> Scene_Game_isBusy (stateOf (addDiscardCard exampleEnv exampleCard 0 17 exampleGame))
   \<and> animationCount (stateOf (arrive exampleEnv 0
        (stateOf (addDiscardCard exampleEnv exampleCard 0 17 exampleGame)))) = 0
   \<and> \<not> Scene_Game_isBusy (stateOf (arrive exampleEnv 0
        (stateOf (addDiscardCard exampleEnv exampleCard 0 17 exampleGame))))
   \<and> animationCount (stateOf (onCardPlay exampleEnv 0 exampleCard 17 exampleGame)) = 1
   \<and> Scene_Game_isBusy (stateOf (onCardPlay exampleEnv 0 exampleCard 17 exampleGame))
   \<and> animationCount (stateOf (arrive exampleEnv 0
        (stateOf (onCardPlay exampleEnv 0 exampleCard 17 exampleGame)))) = 0
   \<and> \<not> Scene_Game_isBusy (stateOf (arrive exampleEnv 0
        (stateOf (onCardPlay exampleEnv 0 exampleCard 17 exampleGame))))"
proof -
  let ?hc = "\<lparr> cv_x = 0, cv_y = 500, cv_width = 350, cv_height = 225 \<rparr> :: canvas"
  have h: "cardSprite exampleGame (c_id exampleCard) = Some 0" "playerNumber exampleEnv \<noteq> 0"
    "animationCount exampleGame = 0" "fadingTimer exampleGame = 0" "\<not> playerPhase exampleGame"
    "arrayGet (handCanvas exampleGame) 0 = Some ?hc"
    by (simp_all add: exampleEnv_def arrayGet_def game_simps)
  from isBusy_follows_animation_counter [of exampleGame exampleCard 0 0 exampleEnv 17 ?hc] h
  obtain s1 s2 where r: "addDiscardCard exampleEnv exampleCard 0 17 exampleGame = Done () s1"
    "arrive exampleEnv 0 s1 = Done () s2"
    "\<not> Scene_Game_isBusy exampleGame" "animationCount s1 = 1" "Scene_Game_isBusy s1"
    "animationCount s2 = 0" "\<not> Scene_Game_isBusy s2"
    by blast
  from isBusy_follows_animation_counter [of exampleGame exampleCard 0 0 exampleEnv 17 ?hc] h
  obtain t1 t2 where p: "onCardPlay exampleEnv 0 exampleCard 17 exampleGame = Done () t1"
    "arrive exampleEnv 0 t1 = Done () t2"
    "animationCount t1 = 1" "Scene_Game_isBusy t1"
    "animationCount t2 = 0" "\<not> Scene_Game_isBusy t2"
    by blast
  have "stateOf (addDiscardCard exampleEnv exampleCard 0 17 exampleGame) = s1"
    "stateOf (arrive exampleEnv 0 s1) = s2"
    "stateOf (onCardPlay exampleEnv 0 exampleCard 17 exampleGame) = t1"
    "stateOf (arrive exampleEnv 0 t1) = t2"
    by (simp_all add: r(1,2) p(1,2) stateOf_def)
  then show ?thesis using h r p by simp
qed

section \<open>Hand layout\<close>










section \<open>The pool and its counter\<close>

lemma samePool_refl: "samePool s s"
  by (simp add: samePool_def)

lemma samePool_trans: "samePool s s1 \<Longrightarrow> samePool s1 s2 \<Longrightarrow> samePool s s2"
  by (simp add: samePool_def)

lemma samePool_keeps: "samePool s s' \<Longrightarrow> keepsPool s s'"
  by (auto simp: samePool_def keepsPool_def poolCounted_def poolLength_def split: option.splits)

lemma keepsPool_trans: "keepsPool s s1 \<Longrightarrow> keepsPool s1 s2 \<Longrightarrow> keepsPool s s2"
  by (auto simp: keepsPool_def)

lemma stateOf_simps [simp]: "stateOf (Done x s) = s" "stateOf (Failed f s) = s"
  by (simp_all add: stateOf_def)

lemma stateOf_andThen:
  "stateOf (andThen r f) = (case r of Done x s1 \<Rightarrow> stateOf (f x s1) | Failed e s1 \<Rightarrow> s1)"
  by (cases r) (simp_all add: andThen_def)

lemma samePool_andThen:
  assumes "samePool s (stateOf r)" "\<And>x s1. r = Done x s1 \<Longrightarrow> samePool s1 (stateOf (f x s1))"
  shows "samePool s (stateOf (andThen r f))"
  using assms by (cases r) (auto simp: andThen_def intro: samePool_trans)

lemma keepsPool_andThen:
  assumes "keepsPool s (stateOf r)" "\<And>x s1. r = Done x s1 \<Longrightarrow> keepsPool s1 (stateOf (f x s1))"
  shows "keepsPool s (stateOf (andThen r f))"
  using assms by (cases r) (auto simp: andThen_def intro: keepsPool_trans)

lemma samePool_onSprite: "samePool s (onSprite a f s)"
  by (simp add: samePool_def onSprite_def)

lemma samePool_onSprite': "samePool s s1 \<Longrightarrow> samePool s (onSprite a f s1)"
  by (simp add: samePool_def onSprite_def)

lemma createCardSprite_cases:
  "(spritePool s = None \<and> createCardSprite e s = Failed (Throws TypeError) s)
   \<or> (\<exists>pool s'. spritePool s = Some pool \<and> createCardSprite e s = Done (nextSprite s) s'
          \<and> samePool s s' \<and> nextSprite s' = Suc (nextSprite s)
          \<and> playerIndex (sprites s' (nextSprite s)) = - 2
          \<and> handIndex (sprites s' (nextSprite s)) = - 1
          \<and> \<not> sp_visible (sprites s' (nextSprite s)))"
  by (cases "spritePool s") (simp_all add: createCardSprite_def samePool_def Let_def)

lemma samePool_createCardSprite: "samePool s (stateOf (createCardSprite e s))"
  using createCardSprite_cases [of s e] by (auto simp: samePool_refl)

lemma createCardSpritePool_loop_length:
  "spritePool s = Some pool \<Longrightarrow>
   \<exists>s' pool'. createCardSpritePool_loop e n s = Done () s' \<and> spritePool s' = Some pool'
      \<and> length pool' = length pool + n \<and> cardSpritePoolSize s' = cardSpritePoolSize s"
proof (induction n arbitrary: s pool)
  case 0
  then show ?case by simp
next
  case (Suc n)
  from createCardSprite_cases [of s e] Suc.prems obtain s1 where
    s1: "createCardSprite e s = Done (nextSprite s) s1" "samePool s s1"
    by auto
  let ?s2 = "pushSprite (nextSprite s) s1"
  have p2: "spritePool ?s2 = Some (pool @ [nextSprite s])"
    "cardSpritePoolSize ?s2 = cardSpritePoolSize s"
    using s1(2) Suc.prems by (simp_all add: pushSprite_def samePool_def)
  from Suc.IH [OF p2(1)] obtain s' pool' where
    "createCardSpritePool_loop e n ?s2 = Done () s'" "spritePool s' = Some pool'"
    "length pool' = length (pool @ [nextSprite s]) + n"
    "cardSpritePoolSize s' = cardSpritePoolSize ?s2"
    by blast
  then show ?case using s1(1) p2(2) by (simp add: andThen_def)
qed

lemma createCardSpritePool_result:
  "\<exists>s' pool'. createCardSpritePool e s = Done () s' \<and> spritePool s' = Some pool'
      \<and> length pool' = nat (cardSpritePoolSize s) \<and> cardSpritePoolSize s' = cardSpritePoolSize s"
proof -
  have "spritePool (s\<lparr> spritePool := Some [] \<rparr>) = Some []" by simp
  from createCardSpritePool_loop_length [OF this, of e "nat (cardSpritePoolSize s)"]
  show ?thesis by (simp add: createCardSpritePool_def)
qed

lemma keepsPool_createCardSpritePool: "keepsPool s (stateOf (createCardSpritePool e s))"
proof -
  from createCardSpritePool_result [of e s] obtain s' pool' where
    r: "createCardSpritePool e s = Done () s'" "spritePool s' = Some pool'"
      "length pool' = nat (cardSpritePoolSize s)" "cardSpritePoolSize s' = cardSpritePoolSize s"
    by blast
  show ?thesis
    unfolding r(1) using r(2,3,4)
    by (auto simp: keepsPool_def poolCounted_def poolLength_def split: option.splits)
qed

lemma getIdleCardSprite_found:
  "firstIdle s = Some a \<Longrightarrow> getIdleCardSprite e s = Done a s"
  by (simp add: getIdleCardSprite_def)

lemma getIdleCardSprite_grows:
  assumes "firstIdle s = None" "spritePool s = Some pool"
  shows "\<exists>s'. getIdleCardSprite e s = Done (nextSprite s) s'
           \<and> spritePool s' = Some (pool @ [nextSprite s])
           \<and> cardSpritePoolSize s' = cardSpritePoolSize s + 1
           \<and> playerIndex (sprites s' (nextSprite s)) = - 2"
proof -
  let ?s0 = "s\<lparr> cardSpritePoolSize := cardSpritePoolSize s + 1 \<rparr>"
  have "spritePool ?s0 = Some pool" using assms(2) by simp
  with createCardSprite_cases [of ?s0 e] obtain s1 where
    s1: "createCardSprite e ?s0 = Done (nextSprite ?s0) s1" "samePool ?s0 s1"
      "playerIndex (sprites s1 (nextSprite ?s0)) = - 2"
    by auto
  show ?thesis
    using assms s1 by (simp add: getIdleCardSprite_def andThen_def pushSprite_def samePool_def)
qed

lemma keepsPool_getIdleCardSprite: "keepsPool s (stateOf (getIdleCardSprite e s))"
proof (cases "firstIdle s")
  case (Some a)
  then show ?thesis by (simp add: getIdleCardSprite_found samePool_keeps samePool_refl)
next
  case None
  show ?thesis
  proof (cases "spritePool s")
    case n: None
    then show ?thesis by (simp add: keepsPool_def poolCounted_def)
  next
    case (Some pool)
    from getIdleCardSprite_grows [OF None Some, of e] obtain s' where
      "getIdleCardSprite e s = Done (nextSprite s) s'"
      "spritePool s' = Some (pool @ [nextSprite s])"
      "cardSpritePoolSize s' = cardSpritePoolSize s + 1"
      by blast
    then show ?thesis using Some
      by (simp add: keepsPool_def poolCounted_def poolLength_def)
  qed
qed

lemma getIdleCardSprite_Done_keeps:
  "getIdleCardSprite e s = Done a s1 \<Longrightarrow> keepsPool s s1"
  using keepsPool_getIdleCardSprite [of s e] by simp


lemma samePool_arrangeHandCards_loop:
  "samePool s (stateOf (arrangeHandCards_loop e index cw ch layout i cards s))"
proof (induction cards arbitrary: i s)
  case Nil
  then show ?case by (simp add: samePool_refl)
next
  case (Cons c rest)
  show ?case
  proof (cases "cardSprite s (c_id c)")
    case None
    then show ?thesis by (simp add: samePool_refl)
  next
    case (Some a)
    show ?thesis
    proof (cases layout)
      case None
      with Some show ?thesis by (simp add: samePool_onSprite)
    next
      case L: (Some pb)
      obtain p base where pb: "pb = (p, base)" by (cases pb)
      define s4 where "s4 =
        onSprite a (moveto (fst (cardTarget e (int index mod 4) ch base p i))
                           (snd (cardTarget e (int index mod 4) ch base p i)) ArrangeArrived)
          (onSprite a (\<lambda>sp. sp\<lparr> sp_parent := InHand index \<rparr>)
            ((onSprite a (setSpriteZ (0x11 + int i) \<circ> setPOS (cw / 2) (ch / 2)) s)
               \<lparr> animationCount := animationCount
                   (onSprite a (setSpriteZ (0x11 + int i) \<circ> setPOS (cw / 2) (ch / 2)) s) + 1 \<rparr>))"
      have u: "arrangeHandCards_loop e index cw ch layout i (c # rest) s
          = arrangeHandCards_loop e index cw ch layout (Suc i) rest s4"
        by (simp add: Some L pb s4_def Let_def)
      have "samePool s s4" by (simp add: s4_def samePool_def onSprite_def)
      from samePool_trans [OF this Cons.IH [of s4 "Suc i"]] show ?thesis
        unfolding u .
    qed
  qed
qed

lemma samePool_arrangeHandCards: "samePool s (stateOf (arrangeHandCards e index s))"
proof (cases "arrayGet (players s) index")
  case None
  then show ?thesis by (simp add: arrangeHandCards_def samePool_refl)
next
  case (Some pl)
  show ?thesis
  proof (cases "arrayGet (handCanvas s) index")
    case None
    with Some show ?thesis by (simp add: arrangeHandCards_def samePool_refl)
  next
    case H: (Some hcs)
    show ?thesis
      unfolding arrangeHandCards_def Some H option.case Let_def
      by (rule samePool_andThen [OF samePool_arrangeHandCards_loop])
        (simp add: samePool_def)
  qed
qed

lemma samePool_addDiscardCard: "samePool s (stateOf (addDiscardCard e crd pid rnd s))"
proof (cases "cardSprite s (c_id crd)")
  case None
  then show ?thesis by (simp add: addDiscardCard_def samePool_refl)
next
  case (Some a)
  show ?thesis
    unfolding addDiscardCard_def Some option.case Let_def
    by (rule samePool_andThen) (simp_all add: samePool_def onSprite_def)
qed

lemma samePool_sendCardToDeck: "samePool s (stateOf (sendCardToDeck pid crd s))"
  by (simp add: sendCardToDeck_def samePool_def onSprite_def Let_def split: option.splits)

lemma samePool_runCallback: "samePool s (stateOf (runCallback e f s))"
proof (cases f)
  case ArrangeArrived
  then show ?thesis by (simp add: runCallback_def samePool_def)
next
  case (DiscardArrived crd)
  then show ?thesis
    by (simp add: runCallback_def samePool_def onSprite_def Let_def split: option.splits)
next
  case (DrawArrived a pid crd shw ar)
  show ?thesis
  proof (cases "getCardImage e crd")
    case (Inl err)
    with DrawArrived show ?thesis by (simp add: runCallback_def samePool_refl)
  next
    case (Inr img)
    let ?s2 = "(onSprite a (\<lambda>sp. sp\<lparr> sp_texture := img \<rparr>) s)
                \<lparr> animationCount := animationCount (onSprite a (\<lambda>sp. sp\<lparr> sp_texture := img \<rparr>) s) - 1 \<rparr>"
    have s2: "samePool s ?s2" by (simp add: samePool_def onSprite_def)
    have "samePool s (stateOf (arrangeHandCards e pid ?s2))"
      by (rule samePool_trans [OF s2 samePool_arrangeHandCards])
    with s2 DrawArrived Inr show ?thesis
      by (simp add: runCallback_def Let_def samePool_def)
  qed
qed

lemma samePool_arrive: "samePool s (stateOf (arrive e a s))"
proof (cases "sp_moving (sprites s a)")
  case None
  then show ?thesis by (simp add: arrive_def samePool_refl)
next
  case (Some m)
  obtain x y f where m: "m = (x, y, f)" by (cases m)
  show ?thesis
    unfolding arrive_def Some m option.case prod.case
    by (rule samePool_trans [OF samePool_onSprite samePool_runCallback])
qed


lemma keepsPool_onCardPlay: "keepsPool s (stateOf (onCardPlay e pid crd rnd s))"
  unfolding onCardPlay_def
proof (rule keepsPool_andThen)
  show "keepsPool s (stateOf
     (if pid = - 1
      then andThen (getIdleCardSprite e s)
             (\<lambda>a s1.
                let s2 = onSprite a (setPOS (fst (deckAnchor s1)) (snd (deckAnchor s1))) s1
                in (case getCardImage e crd of
                      Inl err \<Rightarrow> Failed (Throws err) s2
                    | Inr img \<Rightarrow>
                        let s3 = onSprite a (\<lambda>sp. sp\<lparr> sp_texture := img \<rparr>) s2
                        in Done () (s3\<lparr> cardSprite := (cardSprite s3)(c_id crd \<mapsto> a) \<rparr>)))
      else (case cardSprite s (c_id crd) of
              None \<Rightarrow> Failed (Throws TypeError) s
            | Some a \<Rightarrow>
                let pos = getGlobalPosition s (sprites s a)
                in (case arrayGet (handCanvas s) pid of
                      None \<Rightarrow> Failed (Throws TypeError) s
                    | Some hc \<Rightarrow>
                        Done () (onSprite a (setPOS (fst pos) (snd pos))
                                   (onSprite a (removeChildOf (InHand (nat pid))) s))))))"
  proof (cases "pid = - 1")
    case True
    have "keepsPool s (stateOf (andThen (getIdleCardSprite e s)
             (\<lambda>a s1.
                let s2 = onSprite a (setPOS (fst (deckAnchor s1)) (snd (deckAnchor s1))) s1
                in (case getCardImage e crd of
                      Inl err \<Rightarrow> Failed (Throws err) s2
                    | Inr img \<Rightarrow>
                        let s3 = onSprite a (\<lambda>sp. sp\<lparr> sp_texture := img \<rparr>) s2
                        in Done () (s3\<lparr> cardSprite := (cardSprite s3)(c_id crd \<mapsto> a) \<rparr>)))))"
      by (rule keepsPool_andThen [OF keepsPool_getIdleCardSprite], rule samePool_keeps)
        (simp add: samePool_def onSprite_def Let_def split: sum.splits)
    with True show ?thesis by simp
  next
    case False
    have "samePool s (stateOf (case cardSprite s (c_id crd) of
              None \<Rightarrow> Failed (Throws TypeError) s
            | Some a \<Rightarrow>
                let pos = getGlobalPosition s (sprites s a)
                in (case arrayGet (handCanvas s) pid of
                      None \<Rightarrow> Failed (Throws TypeError) s
                    | Some hc \<Rightarrow>
                        Done () (onSprite a (setPOS (fst pos) (snd pos))
                                   (onSprite a (removeChildOf (InHand (nat pid))) s)))))"
      by (simp add: samePool_def onSprite_def Let_def split: option.splits)
    with False show ?thesis by (simp add: samePool_keeps)
  qed
next
  fix x s4
  show "keepsPool s4 (stateOf
     (case cardSprite s4 (c_id crd) of
        None \<Rightarrow> Failed (Throws TypeError) s4
      | Some a \<Rightarrow>
          let s5 = onSprite a (\<lambda>sp. (setSpriteZ 0x20 sp)\<lparr> handIndex := - 1 \<rparr>) s4;
              s6 = onSprite a (\<lambda>sp. sp\<lparr> playerIndex := - 1 \<rparr>) s5
          in addDiscardCard e crd pid rnd s6))"
  proof (cases "cardSprite s4 (c_id crd)")
    case None
    then show ?thesis by (simp add: samePool_keeps samePool_refl)
  next
    case (Some a)
    let ?s6 = "onSprite a (\<lambda>sp. sp\<lparr> playerIndex := - 1 \<rparr>)
                 (onSprite a (\<lambda>sp. (setSpriteZ 0x20 sp)\<lparr> handIndex := - 1 \<rparr>) s4)"
    have "samePool s4 ?s6" by (simp add: samePool_def onSprite_def)
    from samePool_trans [OF this samePool_addDiscardCard [of ?s6 e crd pid rnd]]
    show ?thesis using Some by (simp add: Let_def samePool_keeps)
  qed
qed

lemma keepsPool_processCardDrawAnimation:
  "keepsPool s (stateOf (processCardDrawAnimation e pid crd shw ar ord s))"
  unfolding processCardDrawAnimation_def
proof (rule keepsPool_andThen)
  have "samePool s (s\<lparr> animationCount := animationCount s + 1 \<rparr>)"
    by (simp add: samePool_def)
  from keepsPool_trans [OF samePool_keeps [OF this] keepsPool_getIdleCardSprite]
  show "keepsPool s (stateOf (getIdleCardSprite e (s\<lparr> animationCount := animationCount s + 1 \<rparr>)))" .
next
  fix a s1
  define s4 where "s4 =
    (onSprite a (\<lambda>sp. sp\<lparr> playerIndex := pid \<rparr>) (onSprite a showSprite s1))
      \<lparr> cardSprite := (cardSprite (onSprite a (\<lambda>sp. sp\<lparr> playerIndex := pid \<rparr>) (onSprite a showSprite s1)))
                          (c_id crd \<mapsto> a) \<rparr>"
  have s4: "samePool s1 s4" by (simp add: s4_def samePool_def onSprite_def)
  have "samePool s4 (stateOf (andThen
           (if pid \<ge> 0
            then (case arrayGet (handCanvas s4) pid of
                    None \<Rightarrow> Failed (Throws TypeError) s4
                  | Some hc \<Rightarrow>
                      if playerNumber e = 0 then Failed NonFinite s4
                      else
                        let sx = cv_x (deckSprite s4) + cv_width (deckSprite s4) / 3;
                            sy = cv_y (deckSprite s4) + cv_height (deckSprite s4) / 3;
                            deg = of_int pid * (360 / of_nat (playerNumber e));
                            dx = cv_x hc + cv_width hc / 2;
                            dy = cv_y hc + cv_height hc / 2
                        in Done (dx, dy) (onSprite a (rotateDegree deg \<circ> setPOS sx sy) s4))
            else Done (0, 0) s4)
           (\<lambda>d s5. Done ()
              (onSprite a (moveto (fst d) (snd d) (DrawArrived a pid crd shw ar)) s5))))"
    by (rule samePool_andThen)
      (simp_all add: samePool_def onSprite_def Let_def split: option.splits)
  from samePool_keeps [OF samePool_trans [OF s4 this]]
  show "keepsPool s1 (stateOf
     (let s2 = onSprite a showSprite s1;
          s3 = onSprite a (\<lambda>sp. sp\<lparr> playerIndex := pid \<rparr>) s2;
          s4 = s3\<lparr> cardSprite := (cardSprite s3)(c_id crd \<mapsto> a) \<rparr>
      in andThen
           (if pid \<ge> 0
            then (case arrayGet (handCanvas s4) pid of
                    None \<Rightarrow> Failed (Throws TypeError) s4
                  | Some hc \<Rightarrow>
                      if playerNumber e = 0 then Failed NonFinite s4
                      else
                        let sx = cv_x (deckSprite s4) + cv_width (deckSprite s4) / 3;
                            sy = cv_y (deckSprite s4) + cv_height (deckSprite s4) / 3;
                            deg = of_int pid * (360 / of_nat (playerNumber e));
                            dx = cv_x hc + cv_width hc / 2;
                            dy = cv_y hc + cv_height hc / 2
                        in Done (dx, dy) (onSprite a (rotateDegree deg \<circ> setPOS sx sy) s4))
            else Done (0, 0) s4)
           (\<lambda>d s5. Done ()
              (onSprite a (moveto (fst d) (snd d) (DrawArrived a pid crd shw ar)) s5))))"
    unfolding s4_def Let_def .
qed

lemma keepsPool_fireTimer: "keepsPool s (stateOf (fireTimer e n s))"
proof (cases "n < length (timers s)")
  case False
  then show ?thesis by (simp add: fireTimer_def samePool_keeps samePool_refl)
next
  case True
  let ?s1 = "s\<lparr> timers := take n (timers s) @ drop (Suc n) (timers s) \<rparr>"
  have s1: "keepsPool s ?s1" by (rule samePool_keeps) (simp add: samePool_def)
  have "keepsPool ?s1 (stateOf (runDeferred e d ?s1))" for d
    by (cases d)
      (simp_all add: runDeferred_def samePool_keeps samePool_sendCardToDeck
        keepsPool_processCardDrawAnimation)
  from keepsPool_trans [OF s1 this] True show ?thesis by (simp add: fireTimer_def)
qed

lemma fold_updateChild_pool:
  fixes s :: scene_game
  shows "samePool s (fold updateChild cs s)"
proof (induction cs arbitrary: s)
  case Nil
  then show ?case by (simp add: samePool_refl)
next
  case (Cons c cs)
  have "samePool s (updateChild c s)" by (simp add: samePool_def updateChild_def)
  from samePool_trans [OF this Cons.IH] show ?case by simp
qed

lemma samePool_update:
  fixes s :: scene_game
  shows "samePool s (update s)"
proof -
  have "samePool s (updateFading s)"
    by (simp add: samePool_def updateFading_def onFadeComplete_def Let_def)
  from samePool_trans [OF this fold_updateChild_pool]
  show ?thesis by (simp add: update_def updateChildren_def)
qed

lemma keepsPool_step: "keepsPool s (step e ev s)"
proof (cases ev)
  case Tick
  then show ?thesis by (simp add: step_def Scene_Game_update_def samePool_keeps samePool_update)
next
  case CreatePool
  then show ?thesis by (simp add: step_def keepsPool_createCardSpritePool)
next
  case (CardPlay pid crd rnd)
  then show ?thesis by (simp add: step_def keepsPool_onCardPlay)
next
  case (CardDraw pid cards shw)
  have "samePool s (onCardDraw pid cards shw s)" by (simp add: samePool_def onCardDraw_def)
  with CardDraw show ?thesis by (simp add: step_def samePool_keeps)
next
  case (Arrange index)
  then show ?thesis by (simp add: step_def samePool_keeps samePool_arrangeHandCards)
next
  case (Arrived a)
  then show ?thesis by (simp add: step_def samePool_keeps samePool_arrive)
next
  case (TimerFired n)
  then show ?thesis by (simp add: step_def keepsPool_fireTimer)
next
  case (UserTurn pid)
  have "samePool s (processUserTurn pid s)" by (simp add: samePool_def processUserTurn_def)
  with UserTurn show ?thesis by (simp add: step_def samePool_keeps)
next
  case UserTurnEnd
  have "samePool s (processUserTurnEnd s)" by (simp add: samePool_def processUserTurnEnd_def)
  with UserTurnEnd show ?thesis by (simp add: step_def samePool_keeps)
qed

lemma keepsPool_run: "keepsPool s (run e evs s)"
proof (induction evs arbitrary: s)
  case Nil
  then show ?case by (simp add: run_def samePool_keeps samePool_refl)
next
  case (Cons ev evs)
  from keepsPool_trans [OF keepsPool_step Cons.IH]
  show ?case by (simp add: run_def)
qed


lemma Scene_Game_new_size:
  "cardSpritePoolSize (Scene_Game_new b deck pile canvases ps h) = 116"
  by (simp add: Scene_Game_new_def scene_base.extend_def scene_game.fields_def)

lemma created_pool:
  "\<exists>s1 pool. createCardSpritePool e (Scene_Game_new b deck pile canvases ps h) = Done () s1
      \<and> spritePool s1 = Some pool \<and> length pool = 116 \<and> cardSpritePoolSize s1 = 116"
  using createCardSpritePool_result [of e "Scene_Game_new b deck pile canvases ps h"]
  by (simp add: Scene_Game_new_size)

lemma poolCounted_run:
  assumes "poolCounted s"
  shows "\<exists>pool. spritePool (run e evs s) = Some pool
           \<and> cardSpritePoolSize (run e evs s) = int (length pool)
           \<and> poolLength s \<le> length pool"
  using keepsPool_run [of s e evs] assms
  by (auto simp: keepsPool_def poolCounted_def poolLength_def split: option.splits)

lemma firstIdle_None:
  "spritePool s = Some pool \<Longrightarrow> \<forall>a \<in> set pool. playerIndex (sprites s a) \<noteq> - 2 \<Longrightarrow>
   firstIdle s = None"
  by (simp add: firstIdle_def find_None_iff)

lemma firstIdle_Some:
  "spritePool s = Some pool \<Longrightarrow> a \<in> set pool \<Longrightarrow> playerIndex (sprites s a) = - 2 \<Longrightarrow>
   \<exists>a'. firstIdle s = Some a' \<and> a' \<in> set pool \<and> playerIndex (sprites s a') = - 2"
proof -
  assume p: "spritePool s = Some pool" and a: "a \<in> set pool" "playerIndex (sprites s a) = - 2"
  then have "List.find (\<lambda>a. playerIndex (sprites s a) = - 2) pool \<noteq> None"
    by (auto simp: find_None_iff)
  then obtain a' where f: "List.find (\<lambda>a. playerIndex (sprites s a) = - 2) pool = Some a'"
    by auto
  then have "a' \<in> set pool \<and> playerIndex (sprites s a') = - 2"
    by (auto simp: find_Some_iff)
  with f p show ?thesis by (simp add: firstIdle_def)
qed

text \<open>
  Claim C10. The pool built by \<open>createCardSpritePool\<close> on a newly constructed scene has
  exactly 116 sprites, the value the constructor gives \<open>cardSpritePoolSize\<close>. From then
  on, whatever sequence of ticks, game callbacks, animation ends and timers follows
  (calls that throw included), the counter equals the number of sprites in the pool, and
  no call makes the pool shorter. \<open>getIdleCardSprite\<close> on a counted pool in which no
  sprite has owner tag \<open>-2\<close> returns a new sprite, appended to the pool, with the counter
  raised by exactly one; when some sprite of the pool has owner tag \<open>-2\<close> it returns such
  a sprite and changes nothing.
\<close>

theorem pool_counter_matches_pool:
  "(let s1 = stateOf (createCardSpritePool e (Scene_Game_new b deck pile canvases ps h)) in
      (\<exists>pool. spritePool s1 = Some pool \<and> length pool = 116 \<and> cardSpritePoolSize s1 = 116)
      \<and> (\<forall>evs. \<exists>pool. spritePool (run e evs s1) = Some pool
             \<and> cardSpritePoolSize (run e evs s1) = int (length pool) \<and> 116 \<le> length pool)
      \<and> (\<forall>evs ev. poolLength (run e evs s1) \<le> poolLength (step e ev (run e evs s1))))
   \<and> (spritePool s = Some pool \<and> cardSpritePoolSize s = int (length pool)
        \<and> (\<forall>a \<in> set pool. playerIndex (sprites s a) \<noteq> - 2) \<longrightarrow>
       (\<exists>a s'. getIdleCardSprite e s = Done a s' \<and> spritePool s' = Some (pool @ [a])
           \<and> cardSpritePoolSize s' = cardSpritePoolSize s + 1
           \<and> cardSpritePoolSize s' = int (length (pool @ [a]))))
   \<and> (spritePool s = Some pool \<and> a \<in> set pool \<and> playerIndex (sprites s a) = - 2 \<longrightarrow>
       (\<exists>a'. getIdleCardSprite e s = Done a' s \<and> a' \<in> set pool
           \<and> playerIndex (sprites s a') = - 2))"
proof (intro conjI)
  from created_pool [of e b deck pile canvases ps h] obtain s1 pool where
    c: "createCardSpritePool e (Scene_Game_new b deck pile canvases ps h) = Done () s1"
      "spritePool s1 = Some pool" "length pool = 116" "cardSpritePoolSize s1 = 116"
    by blast
  have counted: "poolCounted s1" and len: "poolLength s1 = 116"
    using c by (simp_all add: poolCounted_def poolLength_def)
  have inv: "\<exists>pool. spritePool (run e evs s1) = Some pool
             \<and> cardSpritePoolSize (run e evs s1) = int (length pool) \<and> 116 \<le> length pool" for evs
    using poolCounted_run [OF counted, of e evs] len by simp
  have grow: "poolLength (run e evs s1) \<le> poolLength (step e ev (run e evs s1))" for evs ev
  proof -
    from inv [of evs] have "poolCounted (run e evs s1)" by (auto simp: poolCounted_def)
    with keepsPool_step [of "run e evs s1" e ev] show ?thesis by (simp add: keepsPool_def)
  qed
  show "let s1 = stateOf (createCardSpritePool e (Scene_Game_new b deck pile canvases ps h)) in
      (\<exists>pool. spritePool s1 = Some pool \<and> length pool = 116 \<and> cardSpritePoolSize s1 = 116)
      \<and> (\<forall>evs. \<exists>pool. spritePool (run e evs s1) = Some pool
             \<and> cardSpritePoolSize (run e evs s1) = int (length pool) \<and> 116 \<le> length pool)
      \<and> (\<forall>evs ev. poolLength (run e evs s1) \<le> poolLength (step e ev (run e evs s1)))"
    unfolding Let_def c(1) stateOf_simps using c(2,3,4) inv grow by blast
next
  show "spritePool s = Some pool \<and> cardSpritePoolSize s = int (length pool)
        \<and> (\<forall>a \<in> set pool. playerIndex (sprites s a) \<noteq> - 2) \<longrightarrow>
       (\<exists>a s'. getIdleCardSprite e s = Done a s' \<and> spritePool s' = Some (pool @ [a])
           \<and> cardSpritePoolSize s' = cardSpritePoolSize s + 1
           \<and> cardSpritePoolSize s' = int (length (pool @ [a])))"
  proof
    assume h: "spritePool s = Some pool \<and> cardSpritePoolSize s = int (length pool)
        \<and> (\<forall>a \<in> set pool. playerIndex (sprites s a) \<noteq> - 2)"
    then have "firstIdle s = None" using firstIdle_None by blast
    from getIdleCardSprite_grows [OF this, of pool e] h obtain s' where
      "getIdleCardSprite e s = Done (nextSprite s) s'"
      "spritePool s' = Some (pool @ [nextSprite s])"
      "cardSpritePoolSize s' = cardSpritePoolSize s + 1"
      by blast
    with h show "\<exists>a s'. getIdleCardSprite e s = Done a s' \<and> spritePool s' = Some (pool @ [a])
           \<and> cardSpritePoolSize s' = cardSpritePoolSize s + 1
           \<and> cardSpritePoolSize s' = int (length (pool @ [a]))"
      by (intro exI [of _ "nextSprite s"] exI [of _ s']) simp
  qed
next
  show "spritePool s = Some pool \<and> a \<in> set pool \<and> playerIndex (sprites s a) = - 2 \<longrightarrow>
       (\<exists>a'. getIdleCardSprite e s = Done a' s \<and> a' \<in> set pool
           \<and> playerIndex (sprites s a') = - 2)"
  proof
    assume "spritePool s = Some pool \<and> a \<in> set pool \<and> playerIndex (sprites s a) = - 2"
    then obtain a' where "firstIdle s = Some a'" "a' \<in> set pool"
      "playerIndex (sprites s a') = - 2"
      using firstIdle_Some by blast
    then show "\<exists>a'. getIdleCardSprite e s = Done a' s \<and> a' \<in> set pool
           \<and> playerIndex (sprites s a') = - 2"
      using getIdleCardSprite_found by blast
  qed
qed


theorem pool_counter_matches_pool_witness:
  "spritePool exampleGame = Some [0] \<and> cardSpritePoolSize exampleGame = 1
   \<and> playerIndex (sprites exampleGame 0) = 0
   \<and> poolLength (stateOf (getIdleCardSprite exampleEnv exampleGame)) = 2
   \<and> cardSpritePoolSize (stateOf (getIdleCardSprite exampleEnv exampleGame)) = 2
   \<and> playerIndex (sprites (onSprite 0 (\<lambda>sp. sp\<lparr> playerIndex := - 2 \<rparr>) exampleGame) 0) = - 2
   \<and> getIdleCardSprite exampleEnv (onSprite 0 (\<lambda>sp. sp\<lparr> playerIndex := - 2 \<rparr>) exampleGame)
       = Done 0 (onSprite 0 (\<lambda>sp. sp\<lparr> playerIndex := - 2 \<rparr>) exampleGame)"
proof -
  let ?t = "onSprite 0 (\<lambda>sp. sp\<lparr> playerIndex := - 2 \<rparr>) exampleGame"
  have h: "spritePool exampleGame = Some [0]" "cardSpritePoolSize exampleGame = 1"
    "playerIndex (sprites exampleGame 0) = 0"
    by (simp_all add: game_simps)
  have ht: "spritePool ?t = Some [0]" "playerIndex (sprites ?t 0) = - 2"
    by (simp_all add: onSprite_def game_simps)
  from pool_counter_matches_pool [of exampleEnv emptyScene "deckSprite exampleGame"
      "discardPile exampleGame" "[]" "[]" "sprites exampleGame" exampleGame "[0]" 0] h
  obtain a s' where g: "getIdleCardSprite exampleEnv exampleGame = Done a s'"
    "spritePool s' = Some ([0] @ [a])" "cardSpritePoolSize s' = cardSpritePoolSize exampleGame + 1"
    by auto
  have grown: "poolLength (stateOf (getIdleCardSprite exampleEnv exampleGame)) = 2"
    "cardSpritePoolSize (stateOf (getIdleCardSprite exampleEnv exampleGame)) = 2"
    using g h by (simp_all add: poolLength_def)
  from pool_counter_matches_pool [of exampleEnv emptyScene "deckSprite exampleGame"
      "discardPile exampleGame" "[]" "[]" "sprites exampleGame" ?t "[0]" 0] ht
  have idle: "getIdleCardSprite exampleEnv ?t = Done 0 ?t"
    by auto
  show ?thesis using h ht grown idle by simp
qed

section \<open>Image symbols: which bad cards are fatal\<close>

text \<open>
  Claim C9, as stated: an unrecognised colour and an unrecognised value are each fatal.
  The value half fails. Value 99 is none of the nine named values and no number card;
  \<open>getCardImage\<close> appends it to the symbol, looks \<open>Red99\<close> up and returns (with no image,
  as the renderer has none of that name) instead of raising.
\<close>

theorem unknown_value_completes:
  "\<not> namedValue (Value exampleEnv) 99 \<and> \<not> (0 \<le> (99::int) \<and> (99::int) \<le> 9)
   \<and> getCardSymbol exampleEnv \<lparr> c_id = 0, c_color = 0, c_value = 99, c_numID = 0 \<rparr> = Inr ''Red99''
   \<and> getCardImage exampleEnv \<lparr> c_id = 0, c_color = 0, c_value = 99, c_numID = 0 \<rparr> = Inr None"
  by (simp add: namedValue_def exampleEnv_def getCardImage_def getCardSymbol_def colorSymbol_def
      valueSymbol_def showInt_def digitChar_def)

lemma colorSymbol_unknown:
  "\<not> knownColor C c \<Longrightarrow> colorSymbol C c = Inl (InvalidCardColor c)"
  by (simp add: colorSymbol_def knownColor_def)

lemma colorSymbol_known:
  "knownColor C c \<Longrightarrow> \<exists>colour. colorSymbol C c = Inr colour"
  by (auto simp: colorSymbol_def knownColor_def)

lemma valueSymbol_default:
  "\<not> namedValue V v \<Longrightarrow> valueSymbol V v = showInt v"
  by (simp add: valueSymbol_def namedValue_def)

lemma getCardSymbol_Inr:
  "colorSymbol (Color e) (c_color crd) = Inr colour \<Longrightarrow>
   getCardSymbol e crd =
     Inr (colour @ valueSymbol (Value e) (c_value crd)
            @ (if c_value crd > 9 \<and> c_numID crd > 0 then ''_'' @ showInt (c_numID crd + 1) else []))"
  by (simp add: getCardSymbol_def Let_def)

lemma getIdleCardSprite_returns:
  "spritePool s = Some pool \<Longrightarrow> \<exists>a s1. getIdleCardSprite e s = Done a s1"
proof (cases "firstIdle s")
  case None
  assume "spritePool s = Some pool"
  from getIdleCardSprite_grows [OF None this, of e] show ?thesis by blast
next
  case (Some a)
  then show ?thesis using getIdleCardSprite_found by blast
qed

lemma drawn_card_image_error_propagates:
  "\<not> knownColor (Color e) (c_color crd) \<Longrightarrow>
   runCallback e (DrawArrived a pid crd shw ar) s = Failed (Throws (InvalidCardColor (c_color crd))) s"
  by (simp add: runCallback_def getCardImage_def getCardSymbol_def colorSymbol_unknown)

lemma played_card_image_error_propagates:
  assumes "\<not> knownColor (Color e) (c_color crd)" "spritePool s = Some pool"
  shows "\<exists>s'. onCardPlay e (- 1) crd rnd s = Failed (Throws (InvalidCardColor (c_color crd))) s'"
proof -
  from getIdleCardSprite_returns [OF assms(2), of e] obtain a s1 where
    g: "getIdleCardSprite e s = Done a s1" by blast
  have i: "getCardImage e crd = Inl (InvalidCardColor (c_color crd))"
    using assms(1) by (simp add: getCardImage_def getCardSymbol_def colorSymbol_unknown)
  show ?thesis
    by (simp add: onCardPlay_def andThen_def g i Let_def)
qed

text \<open>
  Claim C9, amended. A colour that is none of the five is fatal: \<open>getCardImage\<close> raises
  \<open>Invalid card color\<close>, and the error leaves its callers too, the closure of a drawn
  card and \<open>onCardPlay\<close> for a card played by the system. With one of the five colours
  \<open>getCardImage\<close> never raises, whatever the value: a value that is none of the nine
  named ones is appended to the colour's name as it is, and the lookup's result is
  returned.
\<close>

theorem getCardImage_errors:
  "(\<not> knownColor (Color e) (c_color crd) \<longrightarrow>
      getCardImage e crd = Inl (InvalidCardColor (c_color crd)))
   \<and> (knownColor (Color e) (c_color crd) \<longrightarrow>
      (\<exists>symbol. getCardSymbol e crd = Inr symbol \<and> getCardImage e crd = Inr (graphicsTable e symbol)))
   \<and> (knownColor (Color e) (c_color crd) \<and> \<not> namedValue (Value e) (c_value crd) \<longrightarrow>
      (\<exists>colour suffix. colorSymbol (Color e) (c_color crd) = Inr colour
         \<and> getCardSymbol e crd = Inr (colour @ showInt (c_value crd) @ suffix)))
   \<and> (\<not> knownColor (Color e) (c_color crd) \<longrightarrow>
      runCallback e (DrawArrived a pid crd shw ar) s
        = Failed (Throws (InvalidCardColor (c_color crd))) s)
   \<and> (\<not> knownColor (Color e) (c_color crd) \<and> spritePool s = Some pool \<longrightarrow>
      (\<exists>s'. onCardPlay e (- 1) crd rnd s = Failed (Throws (InvalidCardColor (c_color crd))) s'))"
proof (intro conjI impI)
  assume "\<not> knownColor (Color e) (c_color crd)"
  then show "getCardImage e crd = Inl (InvalidCardColor (c_color crd))"
    by (simp add: getCardImage_def getCardSymbol_def colorSymbol_unknown)
next
  assume "knownColor (Color e) (c_color crd)"
  then obtain colour where "colorSymbol (Color e) (c_color crd) = Inr colour"
    using colorSymbol_known by blast
  from getCardSymbol_Inr [OF this]
  show "\<exists>symbol. getCardSymbol e crd = Inr symbol \<and> getCardImage e crd = Inr (graphicsTable e symbol)"
    by (simp add: getCardImage_def)
next
  assume a: "knownColor (Color e) (c_color crd) \<and> \<not> namedValue (Value e) (c_value crd)"
  then obtain colour where c: "colorSymbol (Color e) (c_color crd) = Inr colour"
    using colorSymbol_known by blast
  from getCardSymbol_Inr [OF c] a
  show "\<exists>colour suffix. colorSymbol (Color e) (c_color crd) = Inr colour
         \<and> getCardSymbol e crd = Inr (colour @ showInt (c_value crd) @ suffix)"
    using c by (simp add: valueSymbol_default)
next
  assume "\<not> knownColor (Color e) (c_color crd)"
  then show "runCallback e (DrawArrived a pid crd shw ar) s
        = Failed (Throws (InvalidCardColor (c_color crd))) s"
    by (rule drawn_card_image_error_propagates)
next
  assume "\<not> knownColor (Color e) (c_color crd) \<and> spritePool s = Some pool"
  then show "\<exists>s'. onCardPlay e (- 1) crd rnd s = Failed (Throws (InvalidCardColor (c_color crd))) s'"
    using played_card_image_error_propagates by blast
qed

theorem getCardImage_errors_witness:
  "\<not> knownColor (Color exampleEnv) 9
   \<and> getCardImage exampleEnv \<lparr> c_id = 1, c_color = 9, c_value = 5, c_numID = 0 \<rparr>
       = Inl (InvalidCardColor 9)
   \<and> knownColor (Color exampleEnv) 0 \<and> \<not> namedValue (Value exampleEnv) 5
   \<and> getCardSymbol exampleEnv \<lparr> c_id = 7, c_color = 0, c_value = 5, c_numID = 0 \<rparr> = Inr ''Red5''
   \<and> getCardImage exampleEnv \<lparr> c_id = 7, c_color = 0, c_value = 5, c_numID = 0 \<rparr> = Inr None
   \<and> spritePool exampleGame = Some [0]
   \<and> runCallback exampleEnv
         (DrawArrived 0 0 \<lparr> c_id = 1, c_color = 9, c_value = 5, c_numID = 0 \<rparr> False True)
         exampleGame
       = Failed (Throws (InvalidCardColor 9)) exampleGame
   \<and> (\<exists>s'. onCardPlay exampleEnv (- 1) \<lparr> c_id = 1, c_color = 9, c_value = 5, c_numID = 0 \<rparr> 17
               exampleGame
             = Failed (Throws (InvalidCardColor 9)) s')"
proof -
  let ?bad = "\<lparr> c_id = 1, c_color = 9, c_value = 5, c_numID = 0 \<rparr>"
  let ?red5 = "\<lparr> c_id = 7, c_color = 0, c_value = 5, c_numID = 0 \<rparr>"
  have a: "\<not> knownColor (Color exampleEnv) 9" "knownColor (Color exampleEnv) 0"
    "\<not> namedValue (Value exampleEnv) 5"
    by (simp_all add: knownColor_def namedValue_def exampleEnv_def)
  have b: "getCardSymbol exampleEnv ?red5 = Inr ''Red5''"
    by (simp add: getCardSymbol_def colorSymbol_def valueSymbol_def showInt_def digitChar_def
        exampleEnv_def)
  have c: "graphicsTable exampleEnv ''Red5'' = None"
    by (simp add: exampleEnv_def)
  have p: "spritePool exampleGame = Some [0]"
    by (simp add: game_simps)
  have bad: "getCardImage exampleEnv ?bad = Inl (InvalidCardColor 9)"
    "runCallback exampleEnv (DrawArrived 0 0 ?bad False True) exampleGame
       = Failed (Throws (InvalidCardColor 9)) exampleGame"
    "\<exists>s'. onCardPlay exampleEnv (- 1) ?bad 17 exampleGame
             = Failed (Throws (InvalidCardColor 9)) s'"
    using getCardImage_errors [of exampleEnv ?bad 0 0 False True exampleGame "[0]" 17] a(1) p
    by simp_all
  have good: "getCardImage exampleEnv ?red5 = Inr None"
    using getCardImage_errors [of exampleEnv ?red5] a(2,3) b c by simp
  show ?thesis using a b p bad good by simp
qed

end
